theory Spec2Isabelle
  imports Main "HOL-Library.Multiset"
begin

section \<open>Python values the generators compute with\<close>

text \<open>
  The exceptions the modelled code paths can raise.  A function that may raise returns
  \<open>py_error + 'a\<close>, with \<open>Inl\<close> for the exception.
\<close>

datatype py_error = OverflowError | ZeroDivisionError | KeyError | ValueError | IndexError

subsection \<open>Binary64 floats\<close>

text \<open>
  A finite Python float is a dyadic rational \<open>m * 2 ^ e\<close>; \<open>Finite m e\<close> carries the
  signed significand and the exponent.  Every operation computes the exact result and
  rounds it to 53 significant bits, ties to even, as IEEE 754 binary64 does; below the
  normal range the rounding step is the fixed quantum \<open>2 ^ -1074\<close>.
\<close>

datatype pyfloat = Finite int int

function bit_length :: "int \<Rightarrow> int" where
  "bit_length n = (if n \<le> 0 then 0 else 1 + bit_length (n div 2))"
  by pat_completeness auto
termination
  by (relation "measure nat") auto

declare bit_length.simps [simp del]

definition round_half_even :: "int \<Rightarrow> nat \<Rightarrow> int" where
  \<comment> \<open>\<open>a / 2 ^ s\<close> (for \<open>a \<ge> 0\<close>) rounded to the nearest integer, a tie going to the even neighbour\<close>
  "round_half_even a s =
     (let q = a div 2 ^ s; r = a mod 2 ^ s
      in if 2 * r < 2 ^ s then q
         else if 2 * r > 2 ^ s then q + 1
         else if even q then q else q + 1)"

definition fl_round :: "int \<Rightarrow> int \<Rightarrow> pyfloat option" where
  \<comment> \<open>the binary64 value nearest to \<open>m * 2 ^ e\<close>; \<open>None\<close> when it rounds to infinity\<close>
  "fl_round m e =
     (let a = \<bar>m\<bar>;
          s = nat (max (bit_length a - 53) (- 1074 - e));
          r = round_half_even a s;
          e' = e + int s
      in if bit_length r + e' > 1024 then None
         else Some (Finite (sgn m * r) e'))"

definition float_of_int :: "int \<Rightarrow> py_error + pyfloat" where
  \<comment> \<open>the conversion \<open>int * float\<close> applies to its left operand\<close>
  "float_of_int n = (case fl_round n 0 of None \<Rightarrow> Inl OverflowError | Some x \<Rightarrow> Inr x)"

fun fmul :: "pyfloat \<Rightarrow> pyfloat \<Rightarrow> pyfloat option" where
  "fmul (Finite m1 e1) (Finite m2 e2) = fl_round (m1 * m2) (e1 + e2)"

fun trunc_float :: "pyfloat \<Rightarrow> int" where
  \<comment> \<open>\<open>int(x)\<close>: truncation towards zero\<close>
  "trunc_float (Finite m e) =
     (if 0 \<le> e then m * 2 ^ nat e else sgn m * (\<bar>m\<bar> div 2 ^ nat (- e)))"

definition int_of_product :: "int \<Rightarrow> pyfloat \<Rightarrow> py_error + int" where
  \<comment> \<open>\<open>int(n * c)\<close> for an int \<open>n\<close> and a float \<open>c\<close>; \<open>int(inf)\<close> raises OverflowError\<close>
  "int_of_product n c =
     (case float_of_int n of
        Inl err \<Rightarrow> Inl err
      | Inr x \<Rightarrow> (case fmul x c of None \<Rightarrow> Inl OverflowError | Some y \<Rightarrow> Inr (trunc_float y)))"

text \<open>
  The float literals of the weight tables: \<open>0.4 = 0x1.999999999999ap-2\<close>,
  \<open>0.35 = 0x1.6666666666666p-2\<close>, \<open>0.2 = 0x1.999999999999ap-3\<close> and
  \<open>0.05 = 0x1.999999999999ap-5\<close>.
\<close>

definition lit_0_4 :: pyfloat where "lit_0_4 = Finite 7205759403792794 (- 54)"
definition lit_0_35 :: pyfloat where "lit_0_35 = Finite 6305039478318694 (- 54)"
definition lit_0_2 :: pyfloat where "lit_0_2 = Finite 7205759403792794 (- 55)"
definition lit_0_05 :: pyfloat where "lit_0_05 = Finite 7205759403792794 (- 57)"

section \<open>Distribution of a mixed corpus over the tiers\<close>

text \<open>
  \<open>DocumentGenerator.generate_mixed_documents\<close> (document_generator.py) computes the first
  three counts by truncating products and gives the last tier the rest.
\<close>

definition mixed_counts :: "int \<Rightarrow> py_error + (int \<times> int \<times> int \<times> int)" where
  "mixed_counts total_count =
     (case int_of_product total_count lit_0_4 of Inl err \<Rightarrow> Inl err | Inr small_count \<Rightarrow>
      case int_of_product total_count lit_0_35 of Inl err \<Rightarrow> Inl err | Inr medium_count \<Rightarrow>
      case int_of_product total_count lit_0_2 of Inl err \<Rightarrow> Inl err | Inr large_count \<Rightarrow>
      Inr (small_count, medium_count, large_count,
           total_count - small_count - medium_count - large_count))"

text \<open>
  \<open>PerformanceGenerator.generate_performance_dataset\<close> (performance_generator.py) builds
  the dict \<open>type_distribution\<close>; all four counts are truncated products.  The association
  list keeps the dict's insertion order, which is the order \<open>items()\<close> iterates in.
\<close>

definition type_distribution :: "int \<Rightarrow> py_error + (string \<times> int) list" where
  "type_distribution total_count =
     (case int_of_product total_count lit_0_4 of Inl err \<Rightarrow> Inl err | Inr c_small \<Rightarrow>
      case int_of_product total_count lit_0_35 of Inl err \<Rightarrow> Inl err | Inr c_medium \<Rightarrow>
      case int_of_product total_count lit_0_2 of Inl err \<Rightarrow> Inl err | Inr c_large \<Rightarrow>
      case int_of_product total_count lit_0_05 of Inl err \<Rightarrow> Inl err | Inr c_huge \<Rightarrow>
      Inr [(''small'', c_small), (''medium'', c_medium), (''large'', c_large),
           (''huge'', c_huge)])"

section \<open>Strings and JSON text\<close>

subsection \<open>\<open>str\<close> of an int\<close>

definition digit_char :: "nat \<Rightarrow> char" where
  "digit_char d = ''0123456789'' ! d"

function str_nat :: "nat \<Rightarrow> string" where
  "str_nat n = (if n < 10 then [digit_char n] else str_nat (n div 10) @ [digit_char (n mod 10)])"
  by pat_completeness auto
termination
  by (relation "measure id") auto

declare str_nat.simps [simp del]

definition str_int :: "int \<Rightarrow> string" where
  \<comment> \<open>what an f-string writes for an int: decimal digits, a minus sign when negative\<close>
  "str_int i = (if i < 0 then CHR ''-'' # str_nat (nat (- i)) else str_nat (nat i))"

subsection \<open>Documents\<close>

text \<open>
  A document is a Python dict with string keys, built by a dict literal; the association
  list keeps the insertion order, which is the order \<open>json.dumps\<close> writes.  A string is a
  list of code points below 256.  A float is carried by its \<open>repr\<close> text, the text
  \<open>json.dumps\<close> writes for it.
\<close>

datatype json =
    JNull
  | JBool bool
  | JInt int
  | JFloat string
  | JStr string
  | JArr "json list"
  | JObj "(string \<times> json) list"

type_synonym document = "(string \<times> json) list"

definition doc_id :: "document \<Rightarrow> json option" where
  \<comment> \<open>the top-level \<open>id\<close> field\<close>
  "doc_id doc = map_of doc ''id''"

subsection \<open>\<open>json.dumps\<close> with its defaults\<close>

definition hex_char :: "nat \<Rightarrow> char" where
  "hex_char d = ''0123456789abcdef'' ! d"

definition escape_char :: "char \<Rightarrow> string" where
  \<comment> \<open>\<open>ensure_ascii=True\<close>: everything outside \<open>' '..'~'\<close>, the quote and the backslash are escaped\<close>
  "escape_char c =
     (let n = (of_char c :: nat) in
      if n = 0x22 then [CHR 0x5C, CHR 0x22]
      else if n = 0x5C then [CHR 0x5C, CHR 0x5C]
      else if n = 0x0A then [CHR 0x5C, CHR ''n'']
      else if n = 0x0D then [CHR 0x5C, CHR ''r'']
      else if n = 0x09 then [CHR 0x5C, CHR ''t'']
      else if n = 0x08 then [CHR 0x5C, CHR ''b'']
      else if n = 0x0C then [CHR 0x5C, CHR ''f'']
      else if n < 0x20 \<or> 0x7E < n
        then [CHR 0x5C, CHR ''u'', CHR ''0'', CHR ''0'', hex_char (n div 16), hex_char (n mod 16)]
      else [c])"

definition dumps_str :: "string \<Rightarrow> string" where
  "dumps_str s = CHR 0x22 # concat (map escape_char s) @ [CHR 0x22]"

fun join :: "string \<Rightarrow> string list \<Rightarrow> string" where
  \<comment> \<open>\<open>sep.join(parts)\<close>\<close>
  "join sep [] = []"
| "join sep [x] = x"
| "join sep (x # y # ys) = x @ sep @ join sep (y # ys)"

fun dumps :: "json \<Rightarrow> string" where
  "dumps JNull = ''null''"
| "dumps (JBool b) = (if b then ''true'' else ''false'')"
| "dumps (JInt i) = str_int i"
| "dumps (JFloat r) = r"
| "dumps (JStr s) = dumps_str s"
| "dumps (JArr xs) = ''['' @ join '', '' (map dumps xs) @ '']''"
| "dumps (JObj kvs) =
     ''{'' @ join '', '' (map (\<lambda>(k, v). dumps_str k @ '': '' @ dumps v) kvs) @ ''}''"

definition dumps_doc :: "document \<Rightarrow> string" where
  \<comment> \<open>\<open>json.dumps(doc)\<close> for a document\<close>
  "dumps_doc doc = dumps (JObj doc)"

subsection \<open>\<open>json.dump(documents, f, indent=2)\<close>\<close>

definition newline_indent :: "nat \<Rightarrow> string" where
  "newline_indent level = CHR 0x0A # replicate (2 * level) CHR '' ''"

fun dumps_indent :: "nat \<Rightarrow> json \<Rightarrow> string" where
  "dumps_indent level (JArr xs) =
     (if xs = [] then ''[]''
      else ''['' @ newline_indent (Suc level)
           @ join ('','' @ newline_indent (Suc level)) (map (dumps_indent (Suc level)) xs)
           @ newline_indent level @ '']'')"
| "dumps_indent level (JObj kvs) =
     (if kvs = [] then ''{}''
      else ''{'' @ newline_indent (Suc level)
           @ join ('','' @ newline_indent (Suc level))
               (map (\<lambda>(k, v). dumps_str k @ '': '' @ dumps_indent (Suc level) v) kvs)
           @ newline_indent level @ ''}'')"
| "dumps_indent level v = dumps v"

section \<open>The output sink\<close>

text \<open>
  The calls a generator makes on its output file, in order.  The \<open>with\<close> block closes the
  file on every exit, also when its body raises.
\<close>

datatype io_event = Write string | Flush | Close

fun written :: "io_event list \<Rightarrow> string" where
  \<comment> \<open>the bytes of the file after the calls\<close>
  "written [] = []"
| "written (Write s # evs) = s @ written evs"
| "written (ev # evs) = written evs"

definition flush_calls :: "io_event list \<Rightarrow> nat" where
  "flush_calls evs = length (filter (\<lambda>ev. ev = Flush) evs)"

definition save_as_ndjson :: "document list \<Rightarrow> io_event list" where
  \<comment> \<open>\<open>DocumentGenerator.save_as_ndjson\<close>, \<open>LogsGenerator.save_as_ndjson\<close> and the inline loop of
      performance_generator's \<open>main\<close>\<close>
  "save_as_ndjson documents = map (\<lambda>doc. Write (dumps_doc doc @ [CHR 0x0A])) documents @ [Close]"

definition save_as_json :: "document list \<Rightarrow> io_event list" where
  "save_as_json documents = [Write (dumps_indent 0 (JArr (map JObj documents))), Close]"

fun streaming_loop :: "int \<Rightarrow> nat \<Rightarrow> document list \<Rightarrow> io_event list \<times> (py_error + unit)" where
  \<comment> \<open>the body of \<open>for i, doc in enumerate(documents)\<close>, from index \<open>i\<close> on\<close>
  "streaming_loop chunk_size i [] = ([], Inr ())"
| "streaming_loop chunk_size i (doc # docs) =
     (if chunk_size = 0 then ([Write (dumps_doc doc @ [CHR 0x0A])], Inl ZeroDivisionError)
      else let (evs, res) = streaming_loop chunk_size (Suc i) docs
           in (Write (dumps_doc doc @ [CHR 0x0A])
                 # (if (int i + 1) mod chunk_size = 0 then [Flush] else []) @ evs, res))"

definition save_as_ndjson_streaming ::
  "document list \<Rightarrow> int \<Rightarrow> io_event list \<times> (py_error + unit)" where
  \<comment> \<open>\<open>PerformanceGenerator.save_as_ndjson_streaming(documents, filepath, chunk_size)\<close>\<close>
  "save_as_ndjson_streaming documents chunk_size =
     (let (evs, res) = streaming_loop chunk_size 0 documents in (evs @ [Close], res))"

section \<open>Random sources and the clock\<close>

text \<open>
  A source is the stream of raw values it will hand out and a cursor.  The module-level
  \<open>random\<close> generator, the \<open>Faker\<close> instance \<open>fake\<close>, the wall clock (\<open>datetime.now()\<close>,
  \<open>time.time()\<close>) and the operating system's entropy (\<open>uuid.uuid4()\<close>) are four sources of
  the world a run executes in.  Seeding replaces a stream by the one the seed determines.
\<close>

record source =
  tape :: "nat \<Rightarrow> nat"
  pos :: nat

record world =
  w_random :: source
  w_fake :: source
  w_clock :: source
  w_urandom :: source

definition draw :: "source \<Rightarrow> nat \<times> source" where
  "draw s = (tape s (pos s), s\<lparr>pos := Suc (pos s)\<rparr>)"

definition randbelow :: "nat \<Rightarrow> source \<Rightarrow> nat \<times> source" where
  \<comment> \<open>a value below \<open>n\<close> (for \<open>n > 0\<close>) from the next raw value\<close>
  "randbelow n s = (let (v, s1) = draw s in (v mod n, s1))"

definition choice :: "'a list \<Rightarrow> source \<Rightarrow> py_error + ('a \<times> source)" where
  \<comment> \<open>\<open>random.choice(seq)\<close>; an empty sequence raises IndexError\<close>
  "choice xs s =
     (if xs = [] then Inl IndexError
      else let (j, s1) = randbelow (length xs) s in Inr (xs ! j, s1))"

definition randint :: "int \<Rightarrow> int \<Rightarrow> source \<Rightarrow> py_error + (int \<times> source)" where
  \<comment> \<open>\<open>random.randint(a, b)\<close>; an empty range raises ValueError\<close>
  "randint a b s =
     (if b < a then Inl ValueError
      else let (j, s1) = randbelow (nat (b - a + 1)) s in Inr (a + int j, s1))"

fun shuffle_loop :: "nat list \<Rightarrow> 'a list \<Rightarrow> source \<Rightarrow> 'a list \<times> source" where
  "shuffle_loop [] x s = (x, s)"
| "shuffle_loop (i # is) x s =
     (let (j, s1) = randbelow (i + 1) s
      in shuffle_loop is (x[i := x ! j, j := x ! i]) s1)"

definition shuffle :: "'a list \<Rightarrow> source \<Rightarrow> 'a list \<times> source" where
  \<comment> \<open>\<open>random.shuffle(x)\<close>: \<open>for i in reversed(range(1, len(x)))\<close>, swap \<open>x[i]\<close> with \<open>x[randbelow(i + 1)]\<close>\<close>
  "shuffle x s = shuffle_loop (rev [1..<length x]) x s"

text \<open>The pre-generated lists a \<open>PerformanceGenerator\<close> object holds.\<close>

record perf_gen =
  common_words :: "string list"
  common_sentences :: "string list"
  common_paragraphs :: "string list"
  common_names :: "string list"
  common_companies :: "string list"

text \<open>
  What the generators take from outside this repository, as parameters: the generator
  behind \<open>random.seed\<close> and \<open>seed_instance\<close>, the Faker providers (by method name, each
  reading the \<open>fake\<close> source only), the formatting of timestamps, \<open>random.uniform\<close>, and
  the fields other than \<open>id\<close> of the document shapes that are not modelled field by field.
\<close>

record externals =
  prng :: "int \<Rightarrow> nat \<Rightarrow> nat"
  faker :: "string \<Rightarrow> source \<Rightarrow> string \<times> source"
  isoformat :: "nat \<Rightarrow> string"
  series_stamp :: "nat \<Rightarrow> nat \<Rightarrow> string \<times> string"
  uniform :: "int \<Rightarrow> int \<Rightarrow> source \<Rightarrow> json \<times> source"
  uuid4 :: "source \<Rightarrow> string \<times> source"
  doc_fields :: "string \<Rightarrow> world \<Rightarrow> document \<times> world"
  perf_fields :: "string \<Rightarrow> perf_gen \<Rightarrow> world \<Rightarrow> document \<times> world"

definition seed_sources :: "externals \<Rightarrow> int option \<Rightarrow> world \<Rightarrow> world" where
  \<comment> \<open>\<open>if args.seed: random.seed(args.seed); fake.seed_instance(args.seed)\<close>:
      \<open>None\<close> and \<open>0\<close> are both falsy\<close>
  "seed_sources E seed w =
     (case seed of
        None \<Rightarrow> w
      | Some k \<Rightarrow>
          if k = 0 then w
          else w\<lparr>w_random := \<lparr>tape = prng E k, pos = 0\<rparr>,
                  w_fake := \<lparr>tape = prng E k, pos = 0\<rparr>\<rparr>)"

section \<open>Generic document generator (document_generator.py)\<close>

definition id_or_uuid :: "externals \<Rightarrow> string \<Rightarrow> world \<Rightarrow> string \<times> world" where
  \<comment> \<open>\<open>doc_id or str(uuid.uuid4())\<close>: \<open>None\<close> and the empty string are falsy\<close>
  "id_or_uuid E ident w =
     (if ident \<noteq> [] then (ident, w)
      else let (u, s1) = uuid4 E (w_urandom w) in (u, w\<lparr>w_urandom := s1\<rparr>))"

definition generate_document :: "externals \<Rightarrow> string \<Rightarrow> string \<Rightarrow> world \<Rightarrow> document \<times> world" where
  \<comment> \<open>\<open>generate_small_document\<close>, \<open>generate_medium_document\<close>, \<open>generate_large_document\<close> and
      \<open>generate_huge_document\<close>: the dict literal starts with \<open>"id"\<close>; no other top-level key
      is \<open>"id"\<close>\<close>
  "generate_document E tier ident w =
     (let (i, w1) = id_or_uuid E ident w;
          (fields, w2) = doc_fields E tier w1
      in ((''id'', JStr i) # filter (\<lambda>kv. fst kv \<noteq> ''id'') fields, w2))"

fun for_range ::
  "(nat \<Rightarrow> world \<Rightarrow> py_error + (document \<times> world)) \<Rightarrow> nat list \<Rightarrow> world
    \<Rightarrow> py_error + (document list \<times> world)" where
  \<comment> \<open>\<open>for i in range(...): documents.append(f(i))\<close> and the list comprehensions\<close>
  "for_range f [] w = Inr ([], w)"
| "for_range f (i # is) w =
     (case f i w of
        Inl err \<Rightarrow> Inl err
      | Inr (d, w1) \<Rightarrow>
          (case for_range f is w1 of
             Inl err \<Rightarrow> Inl err
           | Inr (ds, w2) \<Rightarrow> Inr (d # ds, w2)))"

definition tier_documents ::
  "externals \<Rightarrow> string \<Rightarrow> int \<Rightarrow> world \<Rightarrow> py_error + (document list \<times> world)" where
  \<comment> \<open>\<open>[self.generate_T_document(f"T_{i}") for i in range(count)]\<close>\<close>
  "tier_documents E tier cnt w =
     for_range (\<lambda>i w'. Inr (generate_document E tier (tier @ ''_'' @ str_int (int i)) w'))
       [0..<nat cnt] w"

definition generate_mixed_documents ::
  "externals \<Rightarrow> int \<Rightarrow> world \<Rightarrow> py_error + (document list \<times> world)" where
  "generate_mixed_documents E total_count w =
     (case mixed_counts total_count of
        Inl err \<Rightarrow> Inl err
      | Inr (small_count, medium_count, large_count, huge_count) \<Rightarrow>
     (case tier_documents E ''small'' small_count w of
        Inl err \<Rightarrow> Inl err
      | Inr (smalls, w1) \<Rightarrow>
     (case tier_documents E ''medium'' medium_count w1 of
        Inl err \<Rightarrow> Inl err
      | Inr (mediums, w2) \<Rightarrow>
     (case tier_documents E ''large'' large_count w2 of
        Inl err \<Rightarrow> Inl err
      | Inr (larges, w3) \<Rightarrow>
     (case tier_documents E ''huge'' huge_count w3 of
        Inl err \<Rightarrow> Inl err
      | Inr (huges, w4) \<Rightarrow>
          (let (documents, r) = shuffle (smalls @ mediums @ larges @ huges) (w_random w4)
           in Inr (documents, w4\<lparr>w_random := r\<rparr>)))))))"

definition generate_documents ::
  "externals \<Rightarrow> string \<Rightarrow> int \<Rightarrow> world \<Rightarrow> py_error + (document list \<times> world)" where
  "generate_documents E doc_type cnt w =
     (if doc_type = ''small'' then tier_documents E ''small'' cnt w
      else if doc_type = ''medium'' then tier_documents E ''medium'' cnt w
      else if doc_type = ''large'' then tier_documents E ''large'' cnt w
      else if doc_type = ''huge'' then tier_documents E ''huge'' cnt w
      else if doc_type = ''mixed'' then generate_mixed_documents E cnt w
      else Inl ValueError)"

section \<open>Performance generator (performance_generator.py)\<close>

fun draw_many :: "(source \<Rightarrow> string \<times> source) \<Rightarrow> nat \<Rightarrow> source \<Rightarrow> string list \<times> source" where
  \<comment> \<open>\<open>[fake.word() for _ in range(n)]\<close>\<close>
  "draw_many f 0 s = ([], s)"
| "draw_many f (Suc n) s =
     (let (x, s1) = f s; (xs, s2) = draw_many f n s1 in (x # xs, s2))"

definition PerformanceGenerator_init :: "externals \<Rightarrow> world \<Rightarrow> perf_gen \<times> world" where
  \<comment> \<open>\<open>PerformanceGenerator.__init__\<close>: the five pre-generated lists\<close>
  "PerformanceGenerator_init E w =
     (let (ws, f1) = draw_many (faker E ''word'') 1000 (w_fake w);
          (ss, f2) = draw_many (faker E ''sentence'') 500 f1;
          (ps, f3) = draw_many (faker E ''paragraph'') 100 f2;
          (ns, f4) = draw_many (faker E ''name'') 200 f3;
          (cs, f5) = draw_many (faker E ''company'') 100 f4
      in (\<lparr>common_words = ws, common_sentences = ss, common_paragraphs = ps,
           common_names = ns, common_companies = cs\<rparr>,
          w\<lparr>w_fake := f5\<rparr>))"

definition generate_small_template ::
  "externals \<Rightarrow> perf_gen \<Rightarrow> string \<Rightarrow> world \<Rightarrow> py_error + (document \<times> world)" where
  "generate_small_template E g ident w =
     (let (now, c1) = draw (w_clock w) in
      case choice [''INFO'', ''WARN'', ''ERROR''] (w_random w) of
        Inl err \<Rightarrow> Inl err
      | Inr (level, r1) \<Rightarrow>
     (case choice [''auth'', ''api'', ''web'', ''mobile''] r1 of
        Inl err \<Rightarrow> Inl err
      | Inr (service, r2) \<Rightarrow>
     (case choice (common_sentences g) r2 of
        Inl err \<Rightarrow> Inl err
      | Inr (message, r3) \<Rightarrow>
     (case randint 1 100000 r3 of
        Inl err \<Rightarrow> Inl err
      | Inr (user_id, r4) \<Rightarrow>
     (let (u, f1) = faker E ''uuid4'' (w_fake w) in
      case randint 10 1000 r4 of
        Inl err \<Rightarrow> Inl err
      | Inr (duration, r5) \<Rightarrow>
     (case choice [200, 404, 500] r5 of
        Inl err \<Rightarrow> Inl err
      | Inr (status, r6) \<Rightarrow>
          Inr ([(''id'', JStr ident),
                (''timestamp'', JStr (isoformat E now)),
                (''level'', JStr level),
                (''service'', JStr service),
                (''message'', JStr message),
                (''user_id'', JInt user_id),
                (''session'', JStr (take 8 u)),
                (''duration'', JInt duration),
                (''status'', JInt status)],
               w\<lparr>w_random := r6, w_fake := f1, w_clock := c1\<rparr>)))))))"

definition generate_template ::
  "externals \<Rightarrow> perf_gen \<Rightarrow> string \<Rightarrow> string \<Rightarrow> world \<Rightarrow> py_error + (document \<times> world)" where
  \<comment> \<open>\<open>generate_medium_template\<close>, \<open>generate_large_template\<close> and \<open>generate_huge_template\<close>:
      \<open>"id": doc_id\<close> first; no other top-level key is \<open>"id"\<close>\<close>
  "generate_template E g tier ident w =
     (let (fields, w1) = perf_fields E tier g w
      in Inr ((''id'', JStr ident) # filter (\<lambda>kv. fst kv \<noteq> ''id'') fields, w1))"

definition batch_templates ::
  "externals \<Rightarrow> perf_gen \<Rightarrow> string
    \<Rightarrow> (string \<Rightarrow> world \<Rightarrow> py_error + (document \<times> world)) option" where
  \<comment> \<open>the dict \<open>self.batch_templates\<close>\<close>
  "batch_templates E g doc_type =
     (if doc_type = ''small'' then Some (generate_small_template E g)
      else if doc_type = ''medium'' then Some (generate_template E g ''medium'')
      else if doc_type = ''large'' then Some (generate_template E g ''large'')
      else if doc_type = ''huge'' then Some (generate_template E g ''huge'')
      else None)"

definition generate_batch ::
  "externals \<Rightarrow> perf_gen \<Rightarrow> string \<Rightarrow> int \<Rightarrow> int \<Rightarrow> world
    \<Rightarrow> py_error + (document list \<times> world)" where
  "generate_batch E g doc_type start_id cnt w =
     (case batch_templates E g doc_type of
        None \<Rightarrow> Inl KeyError
      | Some template_func \<Rightarrow>
          for_range (\<lambda>i. template_func (doc_type @ ''_'' @ str_int (start_id + int i)))
            [0..<nat cnt] w)"

text \<open>
  The loop state of \<open>generate_performance_dataset\<close>: \<open>documents\<close>, \<open>current_id\<close>,
  \<open>batches_processed\<close> and the world.
\<close>

type_synonym batch_state = "document list \<times> int \<times> int \<times> world"

fun batch_loop ::
  "externals \<Rightarrow> perf_gen \<Rightarrow> string \<Rightarrow> int \<Rightarrow> int \<Rightarrow> nat list \<Rightarrow> batch_state
    \<Rightarrow> py_error + batch_state" where
  \<comment> \<open>\<open>for batch_num in range(batches)\<close>\<close>
  "batch_loop E g dtype cnt batch_size [] st = Inr st"
| "batch_loop E g dtype cnt batch_size (batch_num # rest)
     (documents, current_id, batches_processed, w) =
     (let batch_count = min batch_size (cnt - int batch_num * batch_size) in
      if batch_count > 0 then
        (case generate_batch E g dtype current_id batch_count w of
           Inl err \<Rightarrow> Inl err
         | Inr (batch_docs, w1) \<Rightarrow>
             batch_loop E g dtype cnt batch_size rest
               (documents @ batch_docs, current_id + batch_count, batches_processed + 1, w1))
      else batch_loop E g dtype cnt batch_size rest
             (documents, current_id, batches_processed, w))"

definition tier_batches ::
  "externals \<Rightarrow> perf_gen \<Rightarrow> string \<Rightarrow> int \<Rightarrow> int \<Rightarrow> batch_state \<Rightarrow> py_error + batch_state" where
  \<comment> \<open>\<open>batches = (count + batch_size - 1) // batch_size\<close> and the loop over them\<close>
  "tier_batches E g dtype cnt batch_size st =
     (if batch_size = 0 then Inl ZeroDivisionError
      else batch_loop E g dtype cnt batch_size
             [0..<nat ((cnt + batch_size - 1) div batch_size)] st)"

fun tier_loop ::
  "externals \<Rightarrow> perf_gen \<Rightarrow> int \<Rightarrow> (string \<times> int) list \<Rightarrow> batch_state
    \<Rightarrow> py_error + batch_state" where
  \<comment> \<open>\<open>for dtype, count in type_distribution.items()\<close>\<close>
  "tier_loop E g batch_size [] st = Inr st"
| "tier_loop E g batch_size ((dtype, cnt) # rest) st =
     (case tier_batches E g dtype cnt batch_size st of
        Inl err \<Rightarrow> Inl err
      | Inr st1 \<Rightarrow> tier_loop E g batch_size rest st1)"

definition generate_performance_dataset ::
  "externals \<Rightarrow> perf_gen \<Rightarrow> int \<Rightarrow> string \<Rightarrow> int \<Rightarrow> world
    \<Rightarrow> py_error + (document list \<times> world)" where
  "generate_performance_dataset E g total_count doc_type batch_size w =
     (if doc_type = ''mixed'' then
        (case type_distribution total_count of
           Inl err \<Rightarrow> Inl err
         | Inr dist \<Rightarrow>
             (case tier_loop E g batch_size dist ([], 0, 0, w) of
                Inl err \<Rightarrow> Inl err
              | Inr (documents, current_id, batches_processed, w1) \<Rightarrow>
                  (let (shuffled, r) = shuffle documents (w_random w1)
                   in Inr (shuffled, w1\<lparr>w_random := r\<rparr>))))
      else
        (case tier_batches E g doc_type total_count batch_size ([], 0, 0, w) of
           Inl err \<Rightarrow> Inl err
         | Inr (documents, current_id, batches_processed, w1) \<Rightarrow> Inr (documents, w1)))"

fun dict_set :: "document \<Rightarrow> string \<Rightarrow> json \<Rightarrow> document" where
  \<comment> \<open>\<open>doc[key] = value\<close>: an existing key keeps its place, a new key goes last\<close>
  "dict_set [] key v = [(key, v)]"
| "dict_set ((k, x) # kvs) key v =
     (if k = key then (k, v) # kvs else (k, x) # dict_set kvs key v)"

definition time_series_document ::
  "externals \<Rightarrow> perf_gen \<Rightarrow> string \<Rightarrow> nat \<Rightarrow> nat \<Rightarrow> world \<Rightarrow> py_error + (document \<times> world)" where
  \<comment> \<open>the loop body of \<open>generate_time_series_data\<close>; \<open>start\<close> is the clock reading taken before
      the loop\<close>
  "time_series_document E g doc_type start i w =
     (case batch_templates E g doc_type of
        None \<Rightarrow> Inl KeyError
      | Some template_func \<Rightarrow>
     (case template_func (''ts_'' @ str_int (int i)) w of
        Inl err \<Rightarrow> Inl err
      | Inr (base_doc, w1) \<Rightarrow>
     (let (stamp, bucket) = series_stamp E start i;
          (val, r1) = uniform E 0 100 (w_random w1)
      in case choice [''up'', ''down'', ''stable''] r1 of
           Inl err \<Rightarrow> Inl err
         | Inr (trend, r2) \<Rightarrow>
             (let (score, r3) = uniform E 0 1 r2;
                  d1 = dict_set base_doc ''timestamp'' (JStr stamp);
                  d2 = dict_set d1 ''sequence_id'' (JInt (int i));
                  d3 = dict_set d2 ''time_bucket'' (JStr bucket);
                  d4 = dict_set d3 ''metrics''
                         (JObj [(''value'', val), (''trend'', JStr trend),
                                (''anomaly_score'', score)])
              in Inr (d4, w1\<lparr>w_random := r3\<rparr>)))))"

definition generate_time_series_data ::
  "externals \<Rightarrow> perf_gen \<Rightarrow> int \<Rightarrow> string \<Rightarrow> world \<Rightarrow> py_error + (document list \<times> world)" where
  "generate_time_series_data E g cnt doc_type w =
     (let (start, c1) = draw (w_clock w)
      in for_range (time_series_document E g doc_type start) [0..<nat cnt]
           (w\<lparr>w_clock := c1\<rparr>))"

section \<open>The two command-line programs\<close>

record report =
  r_documents :: nat
  r_total_size :: nat

record doc_args =
  da_type :: string
  da_count :: int
  da_format :: string
  da_seed :: "int option"

definition main_doc :: "externals \<Rightarrow> doc_args \<Rightarrow> world \<Rightarrow> io_event list \<times> (py_error + report)" where
  \<comment> \<open>\<open>main\<close> of document_generator.py: the calls on the output file and the statistics, or
      the exception that ends the run\<close>
  "main_doc E args w =
     (case generate_documents E (da_type args) (da_count args)
             (seed_sources E (da_seed args) w) of
        Inl err \<Rightarrow> ([], Inl err)
      | Inr (documents, w1) \<Rightarrow>
          (let evs = (if da_format args = ''ndjson'' then save_as_ndjson documents
                      else save_as_json documents);
               total_size = sum_list (map (\<lambda>doc. length (dumps_doc doc)) documents)
           in if length documents = 0 then (evs, Inl ZeroDivisionError)
              else (evs, Inr \<lparr>r_documents = length documents, r_total_size = total_size\<rparr>)))"

record perf_args =
  pa_count :: int
  pa_type :: string
  pa_batch_size :: int
  pa_seed :: "int option"
  pa_streaming :: bool

definition save_documents :: "bool \<Rightarrow> document list \<Rightarrow> io_event list \<times> (py_error + unit)" where
  \<comment> \<open>the save step of performance_generator's \<open>main\<close>; the streaming writer is called without
      a \<open>chunk_size\<close>, so with its default 1000\<close>
  "save_documents streaming documents =
     (if streaming \<or> length documents > 50000 then save_as_ndjson_streaming documents 1000
      else (save_as_ndjson documents, Inr ()))"

definition main_perf :: "externals \<Rightarrow> perf_args \<Rightarrow> world \<Rightarrow> io_event list \<times> (py_error + report)" where
  \<comment> \<open>\<open>main\<close> of performance_generator.py; the four \<open>time.time()\<close> readings come from the clock\<close>
  "main_perf E args w =
     (let (g, w1) = PerformanceGenerator_init E (seed_sources E (pa_seed args) w);
          (start_time, c1) = draw (w_clock w1);
          w2 = w1\<lparr>w_clock := c1\<rparr>
      in case (if pa_type args = ''timeseries''
               then generate_time_series_data E g (pa_count args) ''small'' w2
               else generate_performance_dataset E g (pa_count args) (pa_type args)
                      (pa_batch_size args) w2) of
           Inl err \<Rightarrow> ([], Inl err)
         | Inr (documents, w3) \<Rightarrow>
             (let (gen_end, c2) = draw (w_clock w3);
                  (save_start, c3) = draw c2
              in if gen_end = start_time then ([], Inl ZeroDivisionError)
                 else
                   (case save_documents (pa_streaming args) documents of
                      (evs, Inl err) \<Rightarrow> (evs, Inl err)
                    | (evs, Inr u) \<Rightarrow>
                        (let (save_end, c4) = draw c3;
                             total_size = length (written evs)
                         in if length documents = 0 then (evs, Inl ZeroDivisionError)
                            else if save_end = save_start then (evs, Inl ZeroDivisionError)
                            else (evs, Inr \<lparr>r_documents = length documents,
                                            r_total_size = total_size\<rparr>)))))"

section \<open>Notions the properties are stated with\<close>

definition id_text :: "document \<Rightarrow> string" where
  "id_text doc = (case doc_id doc of Some (JStr s) \<Rightarrow> s | _ \<Rightarrow> [])"

definition tier_of :: "document \<Rightarrow> string" where
  \<comment> \<open>the tier prefix of an identifier \<open>"{tier}_{index}"\<close>\<close>
  "tier_of doc = takeWhile (\<lambda>c. c \<noteq> CHR ''_'') (id_text doc)"

definition tier_rank :: "string \<Rightarrow> nat" where
  \<comment> \<open>the place of a tier in the iteration order small, medium, large, huge\<close>
  "tier_rank t =
     (if t = ''small'' then 0 else if t = ''medium'' then 1
      else if t = ''large'' then 2 else if t = ''huge'' then 3 else 4)"

definition tier_sequential :: "document list \<Rightarrow> bool" where
  \<comment> \<open>all documents of one tier stand before any document of the next tier\<close>
  "tier_sequential docs = sorted (map (\<lambda>doc. tier_rank (tier_of doc)) docs)"

definition numbered :: "string \<Rightarrow> int \<Rightarrow> nat \<Rightarrow> json option list" where
  \<comment> \<open>the identifiers \<open>"{tier}_{start}"\<close>, \<open>"{tier}_{start + 1}"\<close>, ... of \<open>n\<close> documents\<close>
  "numbered tier start n =
     map (\<lambda>i. Some (JStr (tier @ ''_'' @ str_int (start + int i)))) [0..<n]"

section \<open>Example inputs\<close>

text \<open>
  One concrete choice of everything a run takes from outside, used where a property is
  evaluated at an explicit input: providers that return their own name and advance the
  source, a clock whose readings grow, and all-zero random streams.
\<close>

definition example_externals :: externals where
  "example_externals =
     \<lparr>prng = (\<lambda>seed k. nat \<bar>seed\<bar> + k),
      faker = (\<lambda>name s. (name, snd (draw s))),
      isoformat = str_nat,
      series_stamp = (\<lambda>start i. (str_nat (start + 60 * i), str_nat ((start + 60 * i) div 3600))),
      uniform = (\<lambda>a b s. (JFloat ''0.5'', snd (draw s))),
      uuid4 = (\<lambda>s. (str_nat (fst (draw s)), snd (draw s))),
      doc_fields = (\<lambda>tier w. ([(''title'', JStr tier)], w)),
      perf_fields = (\<lambda>tier g w. ([(''title'', JStr tier)], w))\<rparr>"

definition example_world :: world where
  "example_world =
     \<lparr>w_random = \<lparr>tape = (\<lambda>k. 0), pos = 0\<rparr>,
      w_fake = \<lparr>tape = (\<lambda>k. 0), pos = 0\<rparr>,
      w_clock = \<lparr>tape = (\<lambda>k. 1700000000 + k), pos = 0\<rparr>,
      w_urandom = \<lparr>tape = (\<lambda>k. 0), pos = 0\<rparr>\<rparr>"

definition example_generator :: perf_gen where
  "example_generator =
     \<lparr>common_words = [''word''], common_sentences = [''sentence''],
      common_paragraphs = [''paragraph''], common_names = [''name''],
      common_companies = [''company'']\<rparr>"

section \<open>Evaluation rules\<close>

lemma bit_length_0 [simp]: "bit_length 0 = 0"
  by (simp add: bit_length.simps)

lemma bit_length_1 [simp]: "bit_length 1 = 1"
  by (simp add: bit_length.simps [of 1])

lemma bit_length_Bit0 [simp]:
  "bit_length (numeral (Num.Bit0 k)) = 1 + bit_length (numeral k)"
  by (subst bit_length.simps) simp

lemma bit_length_Bit1 [simp]:
  "bit_length (numeral (Num.Bit1 k)) = 1 + bit_length (numeral k)"
  by (subst bit_length.simps) simp

lemmas float_eval =
  int_of_product_def float_of_int_def fl_round_def round_half_even_def Let_def
  lit_0_4_def lit_0_35_def lit_0_2_def lit_0_05_def

section \<open>Identifiers\<close>

lemma str_nat_small: "n < 10 \<Longrightarrow> str_nat n = [digit_char n]"
  by (subst str_nat.simps) simp

lemma str_nat_large: "10 \<le> n \<Longrightarrow> str_nat n = str_nat (n div 10) @ [digit_char (n mod 10)]"
  by (subst str_nat.simps) simp

lemma digit_char_inj: "a < 10 \<Longrightarrow> b < 10 \<Longrightarrow> digit_char a = digit_char b \<Longrightarrow> a = b"
proof -
  assume a: "a < 10" and b: "b < 10" and e: "digit_char a = digit_char b"
  have d: "distinct ''0123456789''" by simp
  have "a < length ''0123456789''" "b < length ''0123456789''" using a b by simp_all
  with d e show "a = b" unfolding digit_char_def
    using nth_eq_iff_index_eq by blast
qed

lemma str_nat_nonempty: "str_nat n \<noteq> []"
  by (subst str_nat.simps) simp

lemma str_nat_inj: "str_nat n = str_nat m \<Longrightarrow> n = m"
proof (induction n arbitrary: m rule: str_nat.induct)
  case (1 n)
  show ?case
  proof (cases "n < 10")
    case small: True
    show ?thesis
    proof (cases "m < 10")
      case True
      with small "1.prems" show ?thesis
        by (simp add: str_nat_small digit_char_inj)
    next
      case False
      with small "1.prems" show ?thesis
        using str_nat_nonempty [of "m div 10"]
        by (simp add: str_nat_small str_nat_large)
    qed
  next
    case large: False
    show ?thesis
    proof (cases "m < 10")
      case True
      with large "1.prems" show ?thesis
        using str_nat_nonempty [of "n div 10"]
        by (simp add: str_nat_small str_nat_large)
    next
      case False
      with large "1.prems" have e: "str_nat (n div 10) = str_nat (m div 10)"
        and d: "digit_char (n mod 10) = digit_char (m mod 10)"
        by (simp_all add: str_nat_large)
      from "1.IH" [OF large e] have q: "n div 10 = m div 10" .
      from d have r: "n mod 10 = m mod 10" by (intro digit_char_inj) simp_all
      from q r show ?thesis by (metis div_mult_mod_eq)
    qed
  qed
qed

lemma digit_char_not_minus: "d < 10 \<Longrightarrow> digit_char d \<noteq> CHR ''-''"
proof -
  assume "d < 10"
  then have "digit_char d \<in> set ''0123456789''"
    unfolding digit_char_def by (intro nth_mem) simp
  then show ?thesis by auto
qed

lemma hd_str_nat_not_minus: "hd (str_nat n) \<noteq> CHR ''-''"
proof (induction n rule: str_nat.induct)
  case (1 n)
  show ?case
  proof (cases "n < 10")
    case True
    then show ?thesis by (simp add: str_nat_small digit_char_not_minus)
  next
    case False
    with 1 show ?thesis
      using str_nat_nonempty [of "n div 10"] by (simp add: str_nat_large)
  qed
qed

lemma str_int_inj: "str_int a = str_int b \<Longrightarrow> a = b"
proof -
  assume e: "str_int a = str_int b"
  have neg: "CHR ''-'' # str_nat x \<noteq> str_nat y" for x y
    using hd_str_nat_not_minus [of y] by (metis list.sel(1))
  show ?thesis
  proof (cases "a < 0")
    case True
    show ?thesis
    proof (cases "b < 0")
      case True
      with \<open>a < 0\<close> e have "nat (- a) = nat (- b)" by (simp add: str_int_def str_nat_inj)
      with True \<open>a < 0\<close> show ?thesis by simp
    next
      case False
      with \<open>a < 0\<close> e neg show ?thesis by (simp add: str_int_def)
    qed
  next
    case False
    show ?thesis
    proof (cases "b < 0")
      case True
      with False e neg [of "nat (- b)" "nat a"] show ?thesis by (simp add: str_int_def)
    next
      case nb: False
      with False e have "nat a = nat b" by (simp add: str_int_def str_nat_inj)
      with False nb show ?thesis by simp
    qed
  qed
qed

lemma randbelow_less: "0 < n \<Longrightarrow> fst (randbelow n s) < n"
  by (simp add: randbelow_def draw_def)

lemma shuffle_loop_mset:
  "\<forall>i \<in> set is. i < length x \<Longrightarrow> mset (fst (shuffle_loop is x s)) = mset x"
proof (induction "is" arbitrary: x s)
  case Nil
  then show ?case by simp
next
  case (Cons i "is")
  obtain j s1 where r: "randbelow (i + 1) s = (j, s1)" by (cases "randbelow (i + 1) s")
  have "j < i + 1" using randbelow_less [of "i + 1" s] r by simp
  with Cons.prems have ji: "j < length x" and il: "i < length x" by auto
  have "mset (x[i := x ! j, j := x ! i]) = mset x"
    using mset_swap [OF ji il] by simp
  moreover have "\<forall>k \<in> set is. k < length (x[i := x ! j, j := x ! i])"
    using Cons.prems by simp
  ultimately show ?case using Cons.IH [of "x[i := x ! j, j := x ! i]" s1] r by simp
qed

lemma shuffle_mset: "mset (fst (shuffle x s)) = mset x"
  unfolding shuffle_def by (rule shuffle_loop_mset) auto

lemma for_range_length:
  "for_range f is w = Inr (ds, w') \<Longrightarrow> length ds = length is"
  by (induction "is" arbitrary: w ds w') (auto split: sum.splits prod.splits)

lemma for_range_ids:
  assumes "\<And>i v d v'. f i v = Inr (d, v') \<Longrightarrow> doc_id d = h i"
  shows "for_range f is w = Inr (ds, w') \<Longrightarrow> map doc_id ds = map h is"
  using assms by (induction "is" arbitrary: w ds w') (auto split: sum.splits prod.splits)

lemma generate_document_id: "doc_id (fst (generate_document E tier ident w)) = Some (JStr (fst (id_or_uuid E ident w)))"
  by (simp add: generate_document_def doc_id_def split: prod.splits)

lemma generate_small_template_id:
  "generate_small_template E g ident w = Inr (d, w') \<Longrightarrow> doc_id d = Some (JStr ident)"
  by (auto simp: generate_small_template_def doc_id_def split: prod.splits sum.splits)

lemma generate_template_id:
  "generate_template E g tier ident w = Inr (d, w') \<Longrightarrow> doc_id d = Some (JStr ident)"
  by (auto simp: generate_template_def doc_id_def split: prod.splits)

lemma batch_templates_id:
  "batch_templates E g doc_type = Some tf \<Longrightarrow> tf ident w = Inr (d, w') \<Longrightarrow> doc_id d = Some (JStr ident)"
  by (auto simp: batch_templates_def generate_small_template_id generate_template_id split: if_splits)

lemma generate_batch_ids:
  assumes "generate_batch E g doc_type start_id cnt w = Inr (ds, w')"
  shows "map doc_id ds = numbered doc_type start_id (nat cnt)"
proof -
  from assms obtain tf where tf: "batch_templates E g doc_type = Some tf"
    and fr: "for_range (\<lambda>i. tf (doc_type @ ''_'' @ str_int (start_id + int i))) [0..<nat cnt] w
             = Inr (ds, w')"
    by (auto simp: generate_batch_def split: option.splits)
  have "map doc_id ds = map (\<lambda>i. Some (JStr (doc_type @ ''_'' @ str_int (start_id + int i)))) [0..<nat cnt]"
    by (rule for_range_ids [OF _ fr]) (rule batch_templates_id [OF tf])
  then show ?thesis by (simp add: numbered_def)
qed

lemma generate_batch_length:
  "generate_batch E g doc_type start_id cnt w = Inr (ds, w') \<Longrightarrow> length ds = nat cnt"
  unfolding generate_batch_def
  by (auto split: option.splits dest: for_range_length)

lemma numbered_append:
  "numbered t s n @ numbered t (s + int n) m = numbered t s (n + m)"
proof -
  have "[n..<n + m] = map (\<lambda>i. i + n) [0..<m]"
    by (simp add: map_add_upt add.commute)
  then have "map (\<lambda>i. Some (JStr (t @ ''_'' @ str_int (s + int i)))) [n..<n + m]
        = map (\<lambda>i. Some (JStr (t @ ''_'' @ str_int (s + int n + int i)))) [0..<m]"
    by (simp add: o_def add.commute add.left_commute)
  then show ?thesis
    unfolding numbered_def by (simp add: upt_add_eq_append [of 0 n m, simplified])
qed

lemma batch_loop_ids:
  "batch_loop E g dtype cnt bs bl (docs, cur, bp, w) = Inr (docs', cur', bp', w')
    \<Longrightarrow> \<exists>new. docs' = docs @ new \<and> map doc_id new = numbered dtype cur (length new)
          \<and> cur' = cur + int (length new)"
proof (induction bl arbitrary: docs cur bp w)
  case Nil
  then show ?case by (simp add: numbered_def)
next
  case (Cons b bl)
  let ?bc = "min bs (cnt - int b * bs)"
  show ?case
  proof (cases "?bc > 0")
    case False
    with Cons.prems have "batch_loop E g dtype cnt bs bl (docs, cur, bp, w) = Inr (docs', cur', bp', w')"
      by (auto simp: Let_def)
    from Cons.IH [OF this] show ?thesis .
  next
    case True
    with Cons.prems obtain bd w1 where
      gb: "generate_batch E g dtype cur ?bc w = Inr (bd, w1)" and
      rest: "batch_loop E g dtype cnt bs bl (docs @ bd, cur + ?bc, bp + 1, w1) = Inr (docs', cur', bp', w')"
      by (auto simp: Let_def split: sum.splits)
    from generate_batch_ids [OF gb] generate_batch_length [OF gb] True
    have ids: "map doc_id bd = numbered dtype cur (length bd)" and len: "int (length bd) = ?bc"
      by simp_all
    from Cons.IH [OF rest] obtain new where
      n: "docs' = (docs @ bd) @ new" "map doc_id new = numbered dtype (cur + ?bc) (length new)"
         "cur' = cur + ?bc + int (length new)" by blast
    have "map doc_id (bd @ new) = numbered dtype cur (length (bd @ new))"
      using ids n(2) len numbered_append [of dtype cur "length bd" "length new"] by simp
    with n len show ?thesis by (intro exI [of _ "bd @ new"]) simp
  qed
qed

lemma tier_batches_ids:
  "tier_batches E g dtype cnt bs (docs, cur, bp, w) = Inr (docs', cur', bp', w')
    \<Longrightarrow> \<exists>new. docs' = docs @ new \<and> map doc_id new = numbered dtype cur (length new)
          \<and> cur' = cur + int (length new)"
  unfolding tier_batches_def by (auto split: if_splits dest: batch_loop_ids)

lemma digit_char_digit: "k < 10 \<Longrightarrow> digit_char k \<in> set ''0123456789''"
  unfolding digit_char_def by (intro nth_mem) simp

lemma str_nat_digits: "set (str_nat n) \<subseteq> set ''0123456789''"
proof (induction n rule: str_nat.induct)
  case (1 n)
  show ?case
  proof (cases "n < 10")
    case True
    with digit_char_digit [of n] show ?thesis by (simp add: str_nat_small)
  next
    case False
    have "set (str_nat n) = set (str_nat (n div 10)) \<union> {digit_char (n mod 10)}"
      using False by (simp add: str_nat_large)
    moreover have "digit_char (n mod 10) \<in> set ''0123456789''"
      by (rule digit_char_digit) simp
    ultimately show ?thesis using "1.IH" [OF False] by blast
  qed
qed

lemma str_int_no_underscore: "\<forall>c \<in> set (str_int i). c \<noteq> CHR ''_''"
  using str_nat_digits [of "nat i"] str_nat_digits [of "nat (- i)"]
  by (auto simp: str_int_def)

lemma numbered_id_inj:
  assumes "t @ ''_'' @ str_int a = t' @ ''_'' @ str_int b"
  shows "a = b"
proof -
  have tw: "takeWhile (\<lambda>c. c \<noteq> CHR ''_'') (rev (u @ ''_'' @ str_int i)) = rev (str_int i)" for u i
    using str_int_no_underscore [of i]
    by (simp add: takeWhile_tail)
  from assms have "rev (str_int a) = rev (str_int b)"
    using tw [of t a] tw [of t' b] by simp
  then show ?thesis by (simp add: str_int_inj)
qed

lemma tier_batches_inv:
  assumes run: "tier_batches E g dtype cnt bs (docs, cur, bp, w) = Inr (docs', cur', bp', w')"
    and cur: "cur = int (length docs)"
    and ids: "\<forall>i<length docs. \<exists>t. doc_id (docs ! i) = Some (JStr (t @ ''_'' @ str_int (int i)))"
  shows "cur' = int (length docs') \<and>
         (\<forall>i<length docs'. \<exists>t. doc_id (docs' ! i) = Some (JStr (t @ ''_'' @ str_int (int i))))"
proof -
  from tier_batches_ids [OF run] obtain new where
    d: "docs' = docs @ new" and n: "map doc_id new = numbered dtype cur (length new)"
    and c: "cur' = cur + int (length new)" by blast
  have "\<exists>t. doc_id (docs' ! i) = Some (JStr (t @ ''_'' @ str_int (int i)))" if i: "i < length docs'" for i
  proof (cases "i < length docs")
    case True
    with ids d show ?thesis by (simp add: nth_append)
  next
    case False
    then have k: "i - length docs < length new" using i d by simp
    have "doc_id (new ! (i - length docs)) = map doc_id new ! (i - length docs)"
      using k by simp
    also have "\<dots> = Some (JStr (dtype @ ''_'' @ str_int (cur + int (i - length docs))))"
      using k unfolding n numbered_def by simp
    also have "cur + int (i - length docs) = int i" using False cur by simp
    finally show ?thesis using False d by (auto simp: nth_append)
  qed
  with c d cur show ?thesis by simp
qed

lemma tier_loop_inv:
  assumes run: "tier_loop E g bs dist (docs, cur, bp, w) = Inr (docs', cur', bp', w')"
    and cur: "cur = int (length docs)"
    and ids: "\<forall>i<length docs. \<exists>t. doc_id (docs ! i) = Some (JStr (t @ ''_'' @ str_int (int i)))"
  shows "cur' = int (length docs') \<and>
         (\<forall>i<length docs'. \<exists>t. doc_id (docs' ! i) = Some (JStr (t @ ''_'' @ str_int (int i))))"
  using assms
proof (induction dist arbitrary: docs cur bp w)
  case Nil
  then show ?case by auto
next
  case (Cons tc dist)
  obtain dtype cnt where tc: "tc = (dtype, cnt)" by (cases tc)
  from Cons.prems(1) tc obtain d1 c1 b1 w1 where
    s1: "tier_batches E g dtype cnt bs (docs, cur, bp, w) = Inr (d1, c1, b1, w1)" and
    s2: "tier_loop E g bs dist (d1, c1, b1, w1) = Inr (docs', cur', bp', w')"
    by (auto split: sum.splits)
  from tier_batches_inv [OF s1 Cons.prems(2) Cons.prems(3)]
  show ?case by (intro Cons.IH [OF s2]) simp_all
qed

lemma consecutive_distinct:
  assumes "\<forall>i<length docs. \<exists>t. doc_id (docs ! i) = Some (JStr (t @ ''_'' @ str_int (int i)))"
  shows "distinct (map doc_id docs) \<and> None \<notin> set (map doc_id docs)"
proof
  show "distinct (map doc_id docs)"
    unfolding distinct_conv_nth
  proof (intro allI impI)
    fix i j
    assume i: "i < length (map doc_id docs)" and j: "j < length (map doc_id docs)" and ne: "i \<noteq> j"
    from assms i obtain t where a: "doc_id (docs ! i) = Some (JStr (t @ ''_'' @ str_int (int i)))" by auto
    from assms j obtain u where b: "doc_id (docs ! j) = Some (JStr (u @ ''_'' @ str_int (int j)))" by auto
    show "map doc_id docs ! i \<noteq> map doc_id docs ! j"
    proof
      assume "map doc_id docs ! i = map doc_id docs ! j"
      with i j a b have "t @ ''_'' @ str_int (int i) = u @ ''_'' @ str_int (int j)" by simp
      from numbered_id_inj [OF this] ne show False by simp
    qed
  qed
next
  show "None \<notin> set (map doc_id docs)"
  proof
    assume "None \<in> set (map doc_id docs)"
    then obtain i where "i < length docs" "doc_id (docs ! i) = None"
      by (auto simp: in_set_conv_nth)
    with assms show False by auto
  qed
qed

lemma shuffle_ids:
  "distinct (map doc_id (fst (shuffle docs s))) = distinct (map doc_id docs) \<and>
   set (map doc_id (fst (shuffle docs s))) = set (map doc_id docs)"
proof -
  have "mset (map doc_id (fst (shuffle docs s))) = mset (map doc_id docs)"
    by (simp add: shuffle_mset)
  then show ?thesis
    using mset_eq_imp_distinct_iff mset_eq_setD by blast
qed

lemma perf_ids_unique:
  assumes "generate_performance_dataset E g total_count doc_type bs w = Inr (docs, w')"
  shows "distinct (map doc_id docs) \<and> None \<notin> set (map doc_id docs)"
proof (cases "doc_type = ''mixed''")
  case True
  with assms obtain dist u c b w1 where
    tl: "tier_loop E g bs dist ([], 0, 0, w) = Inr (u, c, b, w1)" and
    sh: "docs = fst (shuffle u (w_random w1))"
    by (auto simp: generate_performance_dataset_def split: sum.splits prod.splits)
  from tier_loop_inv [OF tl] consecutive_distinct [of u]
  have "distinct (map doc_id u) \<and> None \<notin> set (map doc_id u)" by simp
  with shuffle_ids [of u "w_random w1"] sh show ?thesis by simp
next
  case False
  with assms obtain c b where
    tb: "tier_batches E g doc_type total_count bs ([], 0, 0, w) = Inr (docs, c, b, w')"
    by (auto simp: generate_performance_dataset_def split: sum.splits prod.splits)
  from tier_batches_inv [OF tb] consecutive_distinct [of docs]
  show ?thesis by simp
qed

lemma tier_documents_ids:
  assumes "tier_documents E tier cnt w = Inr (ds, w')"
  shows "map doc_id ds = numbered tier 0 (nat cnt)"
proof -
  have "map doc_id ds = map (\<lambda>i. Some (JStr (tier @ ''_'' @ str_int (int i)))) [0..<nat cnt]"
  proof (rule for_range_ids [OF _ assms [unfolded tier_documents_def]])
    fix i v d v'
    assume "Inr (generate_document E tier (tier @ ''_'' @ str_int (int i)) v) = Inr (d, v')"
    then have "d = fst (generate_document E tier (tier @ ''_'' @ str_int (int i)) v)"
      by (metis fst_conv sum.inject(2))
    then show "doc_id d = Some (JStr (tier @ ''_'' @ str_int (int i)))"
      by (simp add: generate_document_id id_or_uuid_def)
  qed
  then show ?thesis by (simp add: numbered_def)
qed

lemma numbered_distinct: "distinct (numbered t s n)"
proof -
  have "inj_on (\<lambda>i. Some (JStr (t @ ''_'' @ str_int (s + int i)))) (set [0..<n])"
    by (rule inj_onI) (auto dest: str_int_inj)
  then show ?thesis unfolding numbered_def by (simp add: distinct_map)
qed

lemma numbered_no_None: "None \<notin> set (numbered t s n)"
  by (auto simp: numbered_def)

lemma numbered_hd:
  "x \<in> set (numbered (c # t) s n) \<Longrightarrow> \<exists>r. x = Some (JStr (c # r))"
  by (auto simp: numbered_def)

lemma numbered_disjoint:
  "c \<noteq> c' \<Longrightarrow> set (numbered (c # t) s n) \<inter> set (numbered (c' # t') s' n') = {}"
  by (auto dest!: numbered_hd)

lemma mixed_ids_unique:
  assumes "generate_mixed_documents E total_count w = Inr (docs, w')"
  shows "distinct (map doc_id docs) \<and> None \<notin> set (map doc_id docs)"
proof -
  from assms obtain a b c d sm w1 md w2 lg w3 hg w4 where
    s: "tier_documents E ''small'' a w = Inr (sm, w1)" and
    m: "tier_documents E ''medium'' b w1 = Inr (md, w2)" and
    l: "tier_documents E ''large'' c w2 = Inr (lg, w3)" and
    h: "tier_documents E ''huge'' d w3 = Inr (hg, w4)" and
    sh: "docs = fst (shuffle (sm @ md @ lg @ hg) (w_random w4))"
    by (auto simp: generate_mixed_documents_def split: sum.splits prod.splits)
  let ?u = "sm @ md @ lg @ hg"
  have ids: "map doc_id ?u = numbered ''small'' 0 (nat a) @ numbered ''medium'' 0 (nat b)
               @ numbered ''large'' 0 (nat c) @ numbered ''huge'' 0 (nat d)"
    using tier_documents_ids [OF s] tier_documents_ids [OF m]
      tier_documents_ids [OF l] tier_documents_ids [OF h] by simp
  have "distinct (map doc_id ?u)"
    unfolding ids
    by (simp add: numbered_distinct numbered_disjoint Int_Un_distrib Int_Un_distrib2 del: map_append)
  moreover have "None \<notin> set (map doc_id ?u)"
    unfolding ids by (simp add: numbered_no_None del: map_append)
  ultimately show ?thesis
    using shuffle_ids [of ?u "w_random w4"] sh by simp
qed

lemma doc_ids_unique:
  assumes "generate_documents E doc_type cnt w = Inr (docs, w')"
  shows "distinct (map doc_id docs) \<and> None \<notin> set (map doc_id docs)"
proof -
  have t: "distinct (map doc_id ds) \<and> None \<notin> set (map doc_id ds)"
    if "tier_documents E tier cnt w = Inr (ds, v)" for tier ds v
    using tier_documents_ids [OF that] by (simp add: numbered_distinct numbered_no_None)
  from assms show ?thesis
    unfolding generate_documents_def
    by (auto split: if_splits dest: t mixed_ids_unique)
qed

lemma map_of_dict_set: "k \<noteq> key \<Longrightarrow> map_of (dict_set d key v) k = map_of d k"
  by (induction d key v rule: dict_set.induct) auto

lemma doc_id_dict_set: "key \<noteq> ''id'' \<Longrightarrow> doc_id (dict_set d key v) = doc_id d"
  by (simp add: doc_id_def map_of_dict_set)

lemma time_series_document_id:
  assumes "time_series_document E g doc_type start i w = Inr (d, w')"
  shows "doc_id d = Some (JStr (''ts_'' @ str_int (int i)))"
  using assms
  by (auto simp: time_series_document_def Let_def doc_id_dict_set
      split: option.splits sum.splits prod.splits dest: batch_templates_id)

lemma series_ids_unique:
  assumes "generate_time_series_data E g cnt doc_type w = Inr (docs, w')"
  shows "distinct (map doc_id docs) \<and> None \<notin> set (map doc_id docs)"
proof -
  from assms obtain start w0 where
    fr: "for_range (time_series_document E g doc_type start) [0..<nat cnt] w0 = Inr (docs, w')"
    by (auto simp: generate_time_series_data_def split: prod.splits)
  have "map doc_id docs = map (\<lambda>i. Some (JStr (''ts_'' @ str_int (int i)))) [0..<nat cnt]"
    by (rule for_range_ids [OF _ fr]) (rule time_series_document_id)
  then have "map doc_id docs = numbered ''ts'' 0 (nat cnt)" by (simp add: numbered_def)
  then show ?thesis by (simp add: numbered_distinct numbered_no_None)
qed

section \<open>A request for no documents\<close>

lemma batch_loop_nothing:
  "\<forall>b \<in> set bl. min bs (cnt - int b * bs) \<le> 0
    \<Longrightarrow> batch_loop E g dtype cnt bs bl st = Inr st"
proof (induction bl)
  case Nil
  then show ?case by simp
next
  case (Cons b bl)
  obtain documents current_id bp w where st: "st = (documents, current_id, bp, w)"
    by (cases st) auto
  from Cons show ?case unfolding st by (simp add: Let_def del: min_less_iff_conj)
qed

lemma tier_batches_zero:
  "tier_batches E g dtype 0 bs st = (if bs = 0 then Inl ZeroDivisionError else Inr st)"
proof -
  have "min bs (0 - int b * bs) \<le> 0" for b
  proof (cases "bs \<le> 0")
    case True
    then show ?thesis by simp
  next
    case False
    then have "0 \<le> int b * bs" by simp
    then show ?thesis by simp
  qed
  then show ?thesis
    by (simp add: tier_batches_def batch_loop_nothing)
qed

lemma type_distribution_zero:
  "type_distribution 0 = Inr [(''small'', 0), (''medium'', 0), (''large'', 0), (''huge'', 0)]"
  by (simp add: type_distribution_def float_eval)

lemma mixed_counts_zero: "mixed_counts 0 = Inr (0, 0, 0, 0)"
  by (simp add: mixed_counts_def float_eval)

lemma shuffle_Nil: "shuffle [] s = ([], s)"
  by (simp add: shuffle_def)

lemma generate_performance_dataset_zero:
  "generate_performance_dataset E g 0 doc_type bs w =
     (if bs = 0 then Inl ZeroDivisionError else Inr ([], w))"
  by (simp add: generate_performance_dataset_def type_distribution_zero tier_batches_zero
      shuffle_Nil)

lemma generate_time_series_data_zero:
  "generate_time_series_data E g 0 doc_type w = Inr ([], w\<lparr>w_clock := snd (draw (w_clock w))\<rparr>)"
  by (simp add: generate_time_series_data_def split: prod.splits)

lemma save_documents_Nil: "save_documents streaming [] = ([Close], Inr ())"
  by (simp add: save_documents_def save_as_ndjson_streaming_def save_as_ndjson_def)

lemma generate_documents_zero:
  "generate_documents E doc_type 0 w =
     (if doc_type \<in> set [''small'', ''medium'', ''large'', ''huge'', ''mixed'']
      then Inr ([], w) else Inl ValueError)"
  by (simp add: generate_documents_def tier_documents_def generate_mixed_documents_def
      mixed_counts_zero shuffle_Nil)

lemma main_doc_zero:
  "snd (main_doc E (dargs\<lparr>da_count := 0\<rparr>) w) =
     Inl (if da_type dargs \<in> set [''small'', ''medium'', ''large'', ''huge'', ''mixed'']
          then ZeroDivisionError else ValueError)"
  by (simp add: main_doc_def generate_documents_zero Let_def)

section \<open>Batches, chunks and flushes\<close>

lemma ceil_div_bounds:
  fixes cnt bs :: int
  assumes bs: "0 < bs"
  defines "nb \<equiv> nat ((cnt + bs - 1) div bs)"
  shows "cnt \<le> int nb * bs" and "\<forall>b<nb. int b * bs < cnt"
proof -
  let ?q = "(cnt + bs - 1) div bs"
  have dm: "?q * bs + (cnt + bs - 1) mod bs = cnt + bs - 1" by simp
  have m0: "0 \<le> (cnt + bs - 1) mod bs" and m1: "(cnt + bs - 1) mod bs < bs"
    using bs by simp_all
  from dm m1 have lo: "cnt \<le> ?q * bs" by linarith
  from dm m0 have hi: "?q * bs \<le> cnt + bs - 1" by linarith
  show "cnt \<le> int nb * bs"
  proof (cases "0 \<le> ?q")
    case True
    then show ?thesis using lo by (simp add: nb_def)
  next
    case False
    then have "?q * bs \<le> 0" using bs by (simp add: mult_le_0_iff)
    with lo False show ?thesis by (simp add: nb_def)
  qed
  show "\<forall>b<nb. int b * bs < cnt"
  proof (intro allI impI)
    fix b assume "b < nb"
    then have "int b + 1 \<le> ?q" by (simp add: nb_def)
    then have "(int b + 1) * bs \<le> ?q * bs" using bs by (simp add: mult_right_mono)
    with hi show "int b * bs < cnt" by (simp add: algebra_simps)
  qed
qed

lemma batch_loop_length:
  assumes bs: "0 < bs" and top: "cnt \<le> int nb * bs" and below: "\<forall>b<nb. int b * bs < cnt"
  shows "k \<le> nb \<Longrightarrow>
         batch_loop E g dt cnt bs [k..<nb] (docs, cur, bp, w) = Inr (docs', cur', bp', w')
         \<Longrightarrow> int (length docs') = int (length docs) + (if k < nb then cnt - int k * bs else 0)"
proof (induction "nb - k" arbitrary: k docs cur bp w)
  case 0
  then show ?case by simp
next
  case (Suc n)
  then have k: "k < nb" by simp
  let ?bc = "min bs (cnt - int k * bs)"
  have pos: "0 < ?bc" using bs below k by simp
  from Suc.prems(2) k pos obtain bd w1 where
    gb: "generate_batch E g dt cur ?bc w = Inr (bd, w1)" and
    rest: "batch_loop E g dt cnt bs [Suc k..<nb] (docs @ bd, cur + ?bc, bp + 1, w1)
             = Inr (docs', cur', bp', w')"
    by (auto simp: upt_conv_Cons Let_def split: sum.splits)
  have len: "int (length bd) = ?bc" using generate_batch_length [OF gb] pos by simp
  have n: "n = nb - Suc k" using Suc.hyps(2) by simp
  from Suc.hyps(1) [OF n _ rest] k
  have ih: "int (length docs') = int (length (docs @ bd))
              + (if Suc k < nb then cnt - int (Suc k) * bs else 0)" by simp
  show ?case
  proof (cases "Suc k < nb")
    case True
    with below have "int (Suc k) * bs < cnt" by blast
    then have "?bc = bs" by (simp add: algebra_simps)
    with ih len True k show ?thesis by (simp add: algebra_simps)
  next
    case False
    with k have "nb = Suc k" by simp
    with top have "cnt - int k * bs \<le> bs" by (simp add: algebra_simps)
    then have "?bc = cnt - int k * bs" by simp
    with ih len False k show ?thesis by simp
  qed
qed

lemma tier_batches_length:
  assumes bs: "0 < bs"
    and run: "tier_batches E g dt cnt bs (docs, cur, bp, w) = Inr (docs', cur', bp', w')"
  shows "length docs' = length docs + nat cnt"
proof -
  let ?nb = "nat ((cnt + bs - 1) div bs)"
  from run bs have bl: "batch_loop E g dt cnt bs [0..<?nb] (docs, cur, bp, w) = Inr (docs', cur', bp', w')"
    by (simp add: tier_batches_def)
  from batch_loop_length [OF bs ceil_div_bounds [OF bs] _ bl]
  have e: "int (length docs') = int (length docs) + (if 0 < ?nb then cnt else 0)" by simp
  show ?thesis
  proof (cases "0 < ?nb")
    case True
    with ceil_div_bounds(2) [OF bs, of cnt] have "0 < cnt" by fastforce
    with e True show ?thesis by simp
  next
    case False
    with ceil_div_bounds(1) [OF bs, of cnt] have "cnt \<le> 0" by simp
    with e False show ?thesis by simp
  qed
qed

lemma flush_calls_Cons:
  "flush_calls (ev # evs) = (if ev = Flush then 1 else 0) + flush_calls evs"
  by (simp add: flush_calls_def)

lemma flush_calls_append: "flush_calls (xs @ ys) = flush_calls xs + flush_calls ys"
  by (simp add: flush_calls_def)

lemma written_append: "written (xs @ ys) = written xs @ written ys"
  by (induction xs rule: written.induct) simp_all

lemma streaming_loop_result: "cs \<noteq> 0 \<Longrightarrow> snd (streaming_loop cs i docs) = Inr ()"
  by (induction docs arbitrary: i) (simp_all add: split_beta)

lemma streaming_loop_written:
  "cs \<noteq> 0 \<Longrightarrow> written (fst (streaming_loop cs i docs))
     = concat (map (\<lambda>doc. dumps_doc doc @ [CHR 0x0A]) docs)"
  by (induction docs arbitrary: i) (simp_all add: split_beta written_append)

lemma streaming_loop_flushes:
  assumes cs: "0 < cs"
  shows "flush_calls (fst (streaming_loop cs i docs)) + i div nat cs
           = (i + length docs) div nat cs"
proof (induction docs arbitrary: i)
  case Nil
  then show ?case by (simp add: flush_calls_def)
next
  case (Cons d docs)
  have m: "((int i + 1) mod cs = 0) = (Suc i mod nat cs = 0)"
  proof -
    have "int i + 1 = int (Suc i)" by simp
    then have "(int i + 1) mod cs = int (Suc i mod nat cs)"
      using cs by (simp only: zmod_int) simp
    then show ?thesis by simp
  qed
  obtain evs res where sl: "streaming_loop cs (Suc i) docs = (evs, res)"
    by (cases "streaming_loop cs (Suc i) docs")
  from Cons.IH [of "Suc i"] sl
  have ih: "flush_calls evs + Suc i div nat cs = (Suc i + length docs) div nat cs" by simp
  have fl: "flush_calls (fst (streaming_loop cs i (d # docs)))
          = (if Suc i mod nat cs = 0 then 1 else 0) + flush_calls evs"
    using cs sl m by (simp add: flush_calls_Cons flush_calls_append) (simp add: flush_calls_def)
  have "(if Suc i mod nat cs = 0 then 1 else 0) + flush_calls evs + i div nat cs
          = (i + length (d # docs)) div nat cs"
    using ih by (simp add: div_Suc split: if_splits)
  then show ?case by (simp only: fl)
qed

lemma written_save_as_ndjson:
  "written (save_as_ndjson docs) = concat (map (\<lambda>doc. dumps_doc doc @ [CHR 0x0A]) docs)"
  unfolding save_as_ndjson_def by (induction docs) (simp_all add: written_append)

lemma flush_calls_save_as_ndjson: "flush_calls (save_as_ndjson docs) = 0"
  unfolding save_as_ndjson_def by (induction docs) (simp_all add: flush_calls_def)

lemma streaming_loop_trace:
  "cs \<noteq> 0 \<Longrightarrow>
     fst (streaming_loop cs i docs)
       = concat (map (\<lambda>k. Write (dumps_doc (docs ! k) @ [CHR 0x0A])
                          # (if (int i + int k + 1) mod cs = 0 then [Flush] else []))
                  [0..<length docs])"
proof (induction docs arbitrary: i)
  case Nil
  then show ?case by simp
next
  case (Cons d docs)
  have u: "[0..<length (d # docs)] = 0 # map Suc [0..<length docs]"
    by (subst upt_conv_Cons) (simp_all add: map_Suc_upt del: upt_Suc)
  have a: "int (Suc i) + int k + 1 = int i + int (Suc k) + 1" for k by simp
  show ?case
    using Cons.prems Cons.IH [OF Cons.prems, of "Suc i"]
    unfolding u by (simp add: split_beta o_def a del: upt_Suc of_nat_Suc)
qed

lemma save_as_ndjson_streaming_trace:
  "cs \<noteq> 0 \<Longrightarrow>
     fst (save_as_ndjson_streaming docs cs)
       = concat (map (\<lambda>k. Write (dumps_doc (docs ! k) @ [CHR 0x0A])
                          # (if (int k + 1) mod cs = 0 then [Flush] else []))
                  [0..<length docs]) @ [Close]"
  using streaming_loop_trace [of cs 0 docs]
  by (simp add: save_as_ndjson_streaming_def split_beta)

section \<open>Runs on the example inputs\<close>

lemmas run_eval =
  str_int_def str_nat_small digit_char_def generate_document_def id_or_uuid_def
  generate_template_def batch_templates_def generate_batch_def tier_batches_def
  generate_small_template_def choice_def randint_def randbelow_def draw_def
  example_externals_def example_world_def example_generator_def Let_def upt_conv_Cons

lemmas shuffle_eval = shuffle_def randbelow_def draw_def upt_conv_Cons id_text_def doc_id_def

lemma PerformanceGenerator_init_world:
  "\<exists>f. snd (PerformanceGenerator_init E w) = w\<lparr>w_fake := f\<rparr>"
  by (rule exI) (simp add: PerformanceGenerator_init_def split_beta)

lemma for_range_pure:
  assumes "\<And>i. \<exists>d. f i w = Inr (d, w)"
  shows "\<exists>ds. for_range f is w = Inr (ds, w)"
proof (induction "is")
  case Nil
  then show ?case by simp
next
  case (Cons i "is")
  from assms [of i] obtain d where "f i w = Inr (d, w)" by blast
  with Cons show ?case by auto
qed

lemma generate_batch_example:
  assumes "dt \<in> {''medium'', ''large'', ''huge''}"
  shows "\<exists>ds. generate_batch example_externals g dt start cnt w = Inr (ds, w)"
proof -
  from assms obtain tier where
    tf: "batch_templates example_externals g dt = Some (generate_template example_externals g tier)"
    by (auto simp: batch_templates_def)
  show ?thesis
    unfolding generate_batch_def tf option.case
    by (rule for_range_pure) (simp add: generate_template_def example_externals_def)
qed

lemma batch_loop_example:
  assumes "dt \<in> {''medium'', ''large'', ''huge''}"
  shows "\<exists>docs' cur' bp'. batch_loop example_externals g dt cnt bs bl (docs, cur, bp, w)
           = Inr (docs', cur', bp', w)"
proof (induction bl arbitrary: docs cur bp)
  case Nil
  then show ?case by simp
next
  case (Cons b bl)
  let ?bc = "min bs (cnt - int b * bs)"
  from generate_batch_example [OF assms, of g cur ?bc w]
  obtain ds where "generate_batch example_externals g dt cur ?bc w = Inr (ds, w)" by blast
  with Cons [of "docs @ ds" "cur + ?bc" "bp + 1"] Cons [of docs cur bp]
  show ?case by (simp add: Let_def del: min_less_iff_conj)
qed

lemma tier_batches_example:
  assumes dt: "dt \<in> {''medium'', ''large'', ''huge''}" and bs: "0 < bs"
  shows "\<exists>docs' cur' bp'. tier_batches example_externals g dt cnt bs (docs, cur, bp, w)
           = Inr (docs', cur', bp', w) \<and> length docs' = length docs + nat cnt"
proof -
  from batch_loop_example [OF dt, of g cnt bs _ docs cur bp w] bs
  obtain docs' cur' bp' where
    r: "tier_batches example_externals g dt cnt bs (docs, cur, bp, w) = Inr (docs', cur', bp', w)"
    unfolding tier_batches_def by fastforce
  from tier_batches_length [OF bs r] r show ?thesis by simp
qed

lemma generate_performance_dataset_example:
  assumes dt: "dt \<in> {''medium'', ''large'', ''huge''}" and bs: "0 < bs"
  shows "\<exists>docs. generate_performance_dataset example_externals g n dt bs w = Inr (docs, w)
           \<and> length docs = nat n"
proof -
  from dt have nm: "dt \<noteq> ''mixed''" by auto
  from tier_batches_example [OF dt bs, of g n "[]" 0 0 w]
  show ?thesis unfolding generate_performance_dataset_def using nm by auto
qed

section \<open>Order of a mixed corpus\<close>

lemma shuffle_loop_length: "length (fst (shuffle_loop is x s)) = length x"
  by (induction "is" arbitrary: x s) (simp_all add: split_beta)

lemma shuffle_loop_above:
  "\<forall>k \<in> set is. k < m \<Longrightarrow> fst (shuffle_loop is x s) ! m = x ! m"
proof (induction "is" arbitrary: x s)
  case Nil
  then show ?case by simp
next
  case (Cons i "is")
  obtain j s1 where r: "randbelow (i + 1) s = (j, s1)" by (cases "randbelow (i + 1) s")
  have "j < i + 1" using randbelow_less [of "i + 1" s] r by simp
  with Cons.prems have "j \<noteq> m" "i \<noteq> m" by auto
  then have "x[i := x ! j, j := x ! i] ! m = x ! m" by simp
  with Cons.IH [of "x[i := x ! j, j := x ! i]" s1] Cons.prems r show ?case by simp
qed

lemma shuffle_last:
  assumes "x \<noteq> []"
  shows "fst (shuffle x s) ! (length x - 1) = x ! fst (randbelow (length x) s)"
proof (cases "length x = 1")
  case True
  then show ?thesis by (simp add: shuffle_def randbelow_def draw_def)
next
  case False
  with assms have n: "2 \<le> length x" by (cases x) (auto simp: Suc_le_eq)
  let ?n = "length x"
  obtain j s1 where r: "randbelow ?n s = (j, s1)" by (cases "randbelow ?n s")
  have j: "j < ?n" using randbelow_less [of ?n s] r assms by simp
  from n obtain m where m: "?n = Suc m" "Suc 0 \<le> m" by (cases ?n) auto
  have "[1..<?n] = [1..<?n - 1] @ [?n - 1]"
    unfolding m(1) using m(2) by simp
  then have "rev [1..<?n] = (?n - 1) # rev [1..<?n - 1]" by simp
  then have "shuffle x s = shuffle_loop (rev [1..<?n - 1]) (x[?n - 1 := x ! j, j := x ! (?n - 1)]) s1"
    using r m by (simp add: shuffle_def)
  then have "fst (shuffle x s) ! (?n - 1) = x[?n - 1 := x ! j, j := x ! (?n - 1)] ! (?n - 1)"
    by (simp add: shuffle_loop_above)
  also have "\<dots> = x ! j" using j n by (cases "j = ?n - 1") simp_all
  finally show ?thesis using r by simp
qed

lemma tier_of_id:
  "doc_id d = Some (JStr (t @ ''_'' @ s)) \<Longrightarrow> CHR ''_'' \<notin> set t \<Longrightarrow> tier_of d = t"
  by (auto simp: tier_of_def id_text_def takeWhile_tail)

lemma numbered_tier_ranks:
  assumes ids: "map doc_id ds = numbered t s n" and t: "CHR ''_'' \<notin> set t"
  shows "map (\<lambda>d. tier_rank (tier_of d)) ds = replicate (length ds) (tier_rank t)"
proof -
  have "tier_rank (tier_of (ds ! i)) = tier_rank t" if i: "i < length ds" for i
  proof -
    from ids have "length ds = n" by (metis length_map numbered_def diff_zero length_upt)
    with i have "map doc_id ds ! i = Some (JStr (t @ ''_'' @ str_int (s + int i)))"
      unfolding ids numbered_def by simp
    with i have "doc_id (ds ! i) = Some (JStr (t @ ''_'' @ str_int (s + int i)))" by simp
    from tier_of_id [OF this t] show ?thesis by (simp only:)
  qed
  then show ?thesis by (simp add: list_eq_iff_nth_eq)
qed

lemma draw_many_length: "length (fst (draw_many f n s)) = n"
  by (induction n arbitrary: s) (simp_all add: split_beta)

lemma PerformanceGenerator_init_sentences:
  "common_sentences (fst (PerformanceGenerator_init E w)) \<noteq> []"
proof -
  have "length (common_sentences (fst (PerformanceGenerator_init E w))) = 500"
    by (simp add: PerformanceGenerator_init_def split_beta draw_many_length)
  then show ?thesis by auto
qed

lemma generate_small_template_runs:
  "common_sentences g \<noteq> [] \<Longrightarrow>
     \<exists>d w'. generate_small_template E g ident w = Inr (d, w')
           \<and> tape (w_random w') = tape (w_random w)"
  by (simp add: generate_small_template_def choice_def randint_def randbelow_def draw_def
      split_beta Let_def)

lemma batch_template_runs:
  assumes "common_sentences g \<noteq> []" and "batch_templates example_externals g dt = Some tf"
  shows "\<exists>d w'. tf ident w = Inr (d, w') \<and> tape (w_random w') = tape (w_random w)"
  using assms generate_small_template_runs [of g example_externals ident w]
  by (auto simp: batch_templates_def generate_template_def example_externals_def split: if_splits)

lemma for_range_runs:
  assumes "\<And>i w. \<exists>d w'. f i w = Inr (d, w') \<and> tape (w_random w') = tape (w_random w)"
  shows "\<exists>ds w'. for_range f is w = Inr (ds, w') \<and> tape (w_random w') = tape (w_random w)"
proof (induction "is" arbitrary: w)
  case Nil
  then show ?case by simp
next
  case (Cons i "is")
  from assms [of i w] obtain d w1 where
    a: "f i w = Inr (d, w1)" "tape (w_random w1) = tape (w_random w)" by blast
  from Cons [of w1] obtain ds w2 where
    b: "for_range f is w1 = Inr (ds, w2)" "tape (w_random w2) = tape (w_random w1)" by blast
  from a b show ?case by simp
qed

lemma generate_batch_runs:
  assumes gs: "common_sentences g \<noteq> []"
    and dt: "dt \<in> set [''small'', ''medium'', ''large'', ''huge'']"
  shows "\<exists>ds w'. generate_batch example_externals g dt start cnt w = Inr (ds, w')
           \<and> tape (w_random w') = tape (w_random w)"
proof -
  from dt obtain tf where tf: "batch_templates example_externals g dt = Some tf"
    by (auto simp: batch_templates_def)
  show ?thesis
    unfolding generate_batch_def tf option.case
    by (rule for_range_runs) (rule batch_template_runs [OF gs tf])
qed

lemma batch_loop_runs:
  assumes gs: "common_sentences g \<noteq> []"
    and dt: "dt \<in> set [''small'', ''medium'', ''large'', ''huge'']"
  shows "\<exists>docs' cur' bp' w'. batch_loop example_externals g dt cnt bs bl (docs, cur, bp, w)
           = Inr (docs', cur', bp', w') \<and> tape (w_random w') = tape (w_random w)"
proof (induction bl arbitrary: docs cur bp w)
  case Nil
  then show ?case by simp
next
  case (Cons b bl)
  let ?bc = "min bs (cnt - int b * bs)"
  from generate_batch_runs [OF gs dt, of cur ?bc w] obtain ds w1 where
    a: "generate_batch example_externals g dt cur ?bc w = Inr (ds, w1)"
       "tape (w_random w1) = tape (w_random w)" by blast
  from Cons [of "docs @ ds" "cur + ?bc" "bp + 1" w1] a(2) Cons [of docs cur bp w] a(1)
  show ?case by (simp add: Let_def del: min_less_iff_conj)
qed

lemma tier_batches_runs:
  assumes gs: "common_sentences g \<noteq> []"
    and dt: "dt \<in> set [''small'', ''medium'', ''large'', ''huge'']"
    and bs: "0 < bs"
  shows "\<exists>new cur' bp' w'. tier_batches example_externals g dt cnt bs (docs, cur, bp, w)
           = Inr (docs @ new, cur', bp', w') \<and> tape (w_random w') = tape (w_random w)
           \<and> length new = nat cnt \<and> map doc_id new = numbered dt cur (length new)
           \<and> cur' = cur + int (length new)"
proof -
  from batch_loop_runs [OF gs dt, of cnt bs _ docs cur bp w] bs
  obtain docs' cur' bp' w' where
    r: "tier_batches example_externals g dt cnt bs (docs, cur, bp, w) = Inr (docs', cur', bp', w')"
    and t: "tape (w_random w') = tape (w_random w)"
    unfolding tier_batches_def by fastforce
  from tier_batches_ids [OF r] obtain new where
    n: "docs' = docs @ new" "map doc_id new = numbered dt cur (length new)"
       "cur' = cur + int (length new)" by blast
  from tier_batches_length [OF bs r] n(1) have "length new = nat cnt" by simp
  with r t n show ?thesis by auto
qed

lemma type_distribution_tiers:
  "type_distribution n = Inr dist \<Longrightarrow>
     \<exists>a b c d. dist = [(''small'', a), (''medium'', b), (''large'', c), (''huge'', d)]"
  by (auto simp: type_distribution_def split: sum.splits)

lemma tier_loop_sequential:
  assumes "tier_loop E g bs [(''small'', a), (''medium'', b), (''large'', c), (''huge'', d)]
             ([], cur, bp, w) = Inr (u, cur', bp', w')"
  shows "tier_sequential u"
proof -
  from assms obtain d1 c1 b1 w1 where
    s1: "tier_batches E g ''small'' a bs ([], cur, bp, w) = Inr (d1, c1, b1, w1)" and
    r1: "tier_loop E g bs [(''medium'', b), (''large'', c), (''huge'', d)] (d1, c1, b1, w1)
           = Inr (u, cur', bp', w')"
    by (auto split: sum.splits)
  from r1 obtain d2 c2 b2 w2 where
    s2: "tier_batches E g ''medium'' b bs (d1, c1, b1, w1) = Inr (d2, c2, b2, w2)" and
    r2: "tier_loop E g bs [(''large'', c), (''huge'', d)] (d2, c2, b2, w2) = Inr (u, cur', bp', w')"
    by (auto split: sum.splits)
  from r2 obtain d3 c3 b3 w3 where
    s3: "tier_batches E g ''large'' c bs (d2, c2, b2, w2) = Inr (d3, c3, b3, w3)" and
    s4: "tier_batches E g ''huge'' d bs (d3, c3, b3, w3) = Inr (u, cur', bp', w')"
    by (auto split: sum.splits)
  from tier_batches_ids [OF s1] obtain n1 where
    n1: "d1 = n1" "map doc_id n1 = numbered ''small'' cur (length n1)" by auto
  from tier_batches_ids [OF s2] obtain n2 where
    n2: "d2 = d1 @ n2" "map doc_id n2 = numbered ''medium'' c1 (length n2)" by auto
  from tier_batches_ids [OF s3] obtain n3 where
    n3: "d3 = d2 @ n3" "map doc_id n3 = numbered ''large'' c2 (length n3)" by auto
  from tier_batches_ids [OF s4] obtain n4 where
    n4: "u = d3 @ n4" "map doc_id n4 = numbered ''huge'' c3 (length n4)" by auto
  have u: "u = n1 @ n2 @ n3 @ n4" using n1(1) n2(1) n3(1) n4(1) by simp
  have "map (\<lambda>d. tier_rank (tier_of d)) u
          = replicate (length n1) 0 @ replicate (length n2) 1
            @ replicate (length n3) 2 @ replicate (length n4) 3"
    unfolding u
    using numbered_tier_ranks [OF n1(2)] numbered_tier_ranks [OF n2(2)]
      numbered_tier_ranks [OF n3(2)] numbered_tier_ranks [OF n4(2)]
    by (simp add: tier_rank_def)
  then show ?thesis by (auto simp: tier_sequential_def sorted_append set_replicate_conv_if)
qed

lemma generate_performance_dataset_mixed:
  assumes "generate_performance_dataset E g n ''mixed'' bs w = Inr (docs, w')"
  shows "\<exists>dist u c b w1. type_distribution n = Inr dist \<and>
           tier_loop E g bs dist ([], 0, 0, w) = Inr (u, c, b, w1) \<and>
           docs = fst (shuffle u (w_random w1))"
  using assms
  by (auto simp: generate_performance_dataset_def split: sum.splits prod.splits)

lemma written_save_documents:
  "written (fst (save_documents streaming docs))
     = concat (map (\<lambda>doc. dumps_doc doc @ [CHR 0x0A]) docs)"
  using streaming_loop_written [of 1000 0 docs]
  by (simp add: save_documents_def save_as_ndjson_streaming_def written_append
      written_save_as_ndjson split_beta)

lemma mixed_example_not_sequential:
  assumes zero: "tape (w_random w) = (\<lambda>k. 0)" and gs: "common_sentences g \<noteq> []"
    and bs: "0 < bs"
    and dist: "type_distribution n
                 = Inr [(''small'', a), (''medium'', b), (''large'', c), (''huge'', d)]"
    and a: "0 < a" and d: "0 < d"
  shows "\<exists>docs w'. generate_performance_dataset example_externals g n ''mixed'' bs w
                      = Inr (docs, w')
           \<and> length docs = nat a + nat b + nat c + nat d \<and> \<not> tier_sequential docs"
proof -
  from tier_batches_runs [OF gs _ bs, of "''small''" a "[]" 0 0 w] obtain n1 c1 b1 w1 where
    s1: "tier_batches example_externals g ''small'' a bs ([], 0, 0, w) = Inr (n1, c1, b1, w1)"
    and t1: "tape (w_random w1) = tape (w_random w)" and l1: "length n1 = nat a"
    and i1: "map doc_id n1 = numbered ''small'' 0 (length n1)" by auto
  from tier_batches_runs [OF gs _ bs, of "''medium''" b n1 c1 b1 w1] obtain n2 c2 b2 w2 where
    s2: "tier_batches example_externals g ''medium'' b bs (n1, c1, b1, w1)
           = Inr (n1 @ n2, c2, b2, w2)"
    and t2: "tape (w_random w2) = tape (w_random w1)" and l2: "length n2 = nat b" by auto
  from tier_batches_runs [OF gs _ bs, of "''large''" c "n1 @ n2" c2 b2 w2] obtain n3 c3 b3 w3 where
    s3: "tier_batches example_externals g ''large'' c bs (n1 @ n2, c2, b2, w2)
           = Inr ((n1 @ n2) @ n3, c3, b3, w3)"
    and t3: "tape (w_random w3) = tape (w_random w2)" and l3: "length n3 = nat c" by auto
  from tier_batches_runs [OF gs _ bs, of "''huge''" d "(n1 @ n2) @ n3" c3 b3 w3]
  obtain n4 c4 b4 w4 where
    s4: "tier_batches example_externals g ''huge'' d bs ((n1 @ n2) @ n3, c3, b3, w3)
           = Inr (((n1 @ n2) @ n3) @ n4, c4, b4, w4)"
    and t4: "tape (w_random w4) = tape (w_random w3)" and l4: "length n4 = nat d"
    and i4: "map doc_id n4 = numbered ''huge'' c3 (length n4)" by auto
  let ?u = "((n1 @ n2) @ n3) @ n4"
  let ?r = "fst (shuffle ?u (w_random w4))"
  let ?rk = "\<lambda>d. tier_rank (tier_of d)"
  have tl: "tier_loop example_externals g bs
              [(''small'', a), (''medium'', b), (''large'', c), (''huge'', d)] ([], 0, 0, w)
            = Inr (?u, c4, b4, w4)"
    using s1 s2 s3 s4 by simp
  have run: "generate_performance_dataset example_externals g n ''mixed'' bs w
               = Inr (?r, w4\<lparr>w_random := snd (shuffle ?u (w_random w4))\<rparr>)"
    using dist tl by (simp add: generate_performance_dataset_def split_beta)
  have len: "length ?r = nat a + nat b + nat c + nat d"
    by (simp add: shuffle_def shuffle_loop_length l1 l2 l3 l4)
  have z: "tape (w_random w4) = (\<lambda>k. 0)" using zero t1 t2 t3 t4 by simp
  have n1ne: "n1 \<noteq> []" using a l1 by auto
  have n4ne: "n4 \<noteq> []" using d l4 by auto
  have une: "?u \<noteq> []" using n1ne by simp
  have "?r ! (length ?u - 1) = ?u ! 0"
    using shuffle_last [OF une, of "w_random w4"] z by (simp add: randbelow_def draw_def)
  also have "?u ! 0 = n1 ! 0" using n1ne by (simp add: nth_append)
  finally have last: "?r ! (length ?u - 1) = n1 ! 0" .
  have "map ?rk n1 ! 0 = tier_rank ''small''"
    using numbered_tier_ranks [OF i1] n1ne by simp
  then have r1: "?rk (n1 ! 0) = 0" using n1ne by (simp add: tier_rank_def)
  have "map ?rk n4 ! 0 = tier_rank ''huge''"
    using numbered_tier_ranks [OF i4] n4ne by simp
  then have r4: "?rk (n4 ! 0) = 3" using n4ne by (simp add: tier_rank_def)
  have "set ?r = set ?u" using shuffle_mset [of ?u "w_random w4"] by (rule mset_eq_setD)
  moreover have "n4 ! 0 \<in> set ?u" using n4ne by simp
  ultimately have "n4 ! 0 \<in> set ?r" by simp
  then obtain i where i: "i < length ?r" "?r ! i = n4 ! 0" by (auto simp: in_set_conv_nth)
  have lr: "length ?r = length ?u" by (simp add: shuffle_def shuffle_loop_length)
  have "\<not> tier_sequential ?r"
  proof
    assume "tier_sequential ?r"
    then have srt: "sorted (map ?rk ?r)" by (simp add: tier_sequential_def)
    have le: "i \<le> length ?u - 1" using i(1) lr by simp
    have lt: "length ?u - 1 < length (map ?rk ?r)" using une lr by simp
    from sorted_nth_mono [OF srt le lt]
    have "?rk (?r ! i) \<le> ?rk (?r ! (length ?u - 1))" using i(1) lt by simp
    with i(2) last r1 r4 show False by simp
  qed
  with run len show ?thesis by blast
qed

lemma type_distribution_60000:
  "type_distribution 60000
     = Inr [(''small'', 24000), (''medium'', 21000), (''large'', 12000), (''huge'', 3000)]"
  by (simp add: type_distribution_def float_eval)

section \<open>A seeded run and the clock\<close>

lemma main_perf_one_small:
  fixes t0 :: nat
  defines "w \<equiv> example_world\<lparr>w_clock := \<lparr>tape = (\<lambda>k. t0 + k), pos = 0\<rparr>\<rparr>"
  defines "a \<equiv> \<lparr>pa_count = 1, pa_type = ''small'', pa_batch_size = 1000, pa_seed = Some 42,
                  pa_streaming = False\<rparr>"
  shows "\<exists>rest. written (fst (main_perf example_externals a w))
           = ''{\"id\": \"small_0\", \"timestamp\": \"''
             @ concat (map escape_char (str_nat (t0 + 1))) @ CHR 0x22 # rest"
    and "map_sum id r_documents (snd (main_perf example_externals a w)) = Inr 1"
proof -
  obtain g w1 where init:
    "PerformanceGenerator_init example_externals (seed_sources example_externals (Some 42) w) = (g, w1)"
    by (cases "PerformanceGenerator_init example_externals (seed_sources example_externals (Some 42) w)")
  from PerformanceGenerator_init_world [of example_externals "seed_sources example_externals (Some 42) w"] init
  obtain f where w1: "w1 = (seed_sources example_externals (Some 42) w)\<lparr>w_fake := f\<rparr>" by auto
  from PerformanceGenerator_init_sentences [of example_externals "seed_sources example_externals (Some 42) w"] init
  have gs: "common_sentences g \<noteq> []" by simp
  show "\<exists>rest. written (fst (main_perf example_externals a w))
           = ''{\"id\": \"small_0\", \"timestamp\": \"''
             @ concat (map escape_char (str_nat (t0 + 1))) @ CHR 0x22 # rest"
    apply (simp add: main_perf_def a_def init Let_def split_beta)
    apply (simp add: w1 w_def seed_sources_def generate_performance_dataset_def gs run_eval
        save_documents_def save_as_ndjson_def dumps_doc_def dumps_str_def escape_char_def)
    done
  show "map_sum id r_documents (snd (main_perf example_externals a w)) = Inr 1"
    apply (simp add: main_perf_def a_def init Let_def split_beta)
    apply (simp add: w1 w_def seed_sources_def generate_performance_dataset_def gs run_eval
        save_documents_def)
    done
qed

section \<open>The save step of a run\<close>

lemma main_perf_success:
  assumes "snd (main_perf E a w) = Inr rep"
  shows "\<exists>docs w3.
           (if pa_type a = ''timeseries''
            then generate_time_series_data E
                   (fst (PerformanceGenerator_init E (seed_sources E (pa_seed a) w)))
                   (pa_count a) ''small''
                   ((snd (PerformanceGenerator_init E (seed_sources E (pa_seed a) w)))
                      \<lparr>w_clock := snd (draw (w_clock (snd (PerformanceGenerator_init E
                                     (seed_sources E (pa_seed a) w)))))\<rparr>)
            else generate_performance_dataset E
                   (fst (PerformanceGenerator_init E (seed_sources E (pa_seed a) w)))
                   (pa_count a) (pa_type a) (pa_batch_size a)
                   ((snd (PerformanceGenerator_init E (seed_sources E (pa_seed a) w)))
                      \<lparr>w_clock := snd (draw (w_clock (snd (PerformanceGenerator_init E
                                     (seed_sources E (pa_seed a) w)))))\<rparr>))
             = Inr (docs, w3) \<and>
           fst (main_perf E a w) = fst (save_documents (pa_streaming a) docs) \<and>
           r_documents rep = length docs"
  using assms
  by (auto simp: main_perf_def Let_def split_beta split: sum.splits if_splits prod.splits)

lemma lines_trace:
  "concat (map (\<lambda>k. Write (dumps_doc (docs ! k) @ [CHR 0x0A]) # f k) [0..<length docs])
     = concat (map (\<lambda>k. Write (map (\<lambda>d. dumps_doc d @ [CHR 0x0A]) docs ! k) # f k)
                 [0..<length (map (\<lambda>d. dumps_doc d @ [CHR 0x0A]) docs)])"
  by (rule arg_cong [where f = concat]) simp

lemma save_documents_trace:
  "fst (save_documents streaming docs) =
     (if streaming \<or> 50000 < length docs
      then concat (map (\<lambda>k. Write (dumps_doc (docs ! k) @ [CHR 0x0A])
                        # (if (int k + 1) mod 1000 = 0 then [Flush] else []))
                [0..<length docs]) @ [Close]
      else map (\<lambda>d. Write (dumps_doc d @ [CHR 0x0A])) docs @ [Close])"
  using save_as_ndjson_streaming_trace [of 1000 docs]
  by (simp add: save_documents_def save_as_ndjson_def)

lemma flush_calls_save_documents:
  "flush_calls (fst (save_documents streaming docs)) =
     (if streaming \<or> 50000 < length docs then length docs div 1000 else 0)"
proof -
  have "flush_calls (fst (save_as_ndjson_streaming docs 1000)) = length docs div 1000"
    using streaming_loop_flushes [of 1000 0 docs]
    by (simp add: save_as_ndjson_streaming_def flush_calls_append flush_calls_Cons
        split_beta) (simp add: flush_calls_def)
  then show ?thesis by (simp add: save_documents_def flush_calls_save_as_ndjson)
qed

lemma generated_count:
  assumes "0 < bs" and "dt \<noteq> ''mixed''"
    and "generate_performance_dataset E g n dt bs w = Inr (docs, w')"
  shows "length docs = nat n"
proof -
  from assms(2,3) obtain c b where
    "tier_batches E g dt n bs ([], 0, 0, w) = Inr (docs, c, b, w')"
    by (auto simp: generate_performance_dataset_def split: sum.splits prod.splits)
  from tier_batches_length [OF assms(1) this] show ?thesis by simp
qed

lemma series_count:
  assumes "generate_time_series_data E g n dt w = Inr (docs, w')"
  shows "length docs = nat n"
  using assms
  by (auto simp: generate_time_series_data_def split_beta dest: for_range_length)

lemma snd_save_documents: "snd (save_documents streaming docs) = Inr ()"
  using streaming_loop_result [of 1000 0 docs]
  by (simp add: save_documents_def save_as_ndjson_streaming_def split_beta)

lemma main_perf_medium_example:
  assumes n: "0 < n" and bs: "0 < bs"
  shows "\<exists>rep. snd (main_perf example_externals
            \<lparr>pa_count = n, pa_type = ''medium'', pa_batch_size = bs, pa_seed = None,
             pa_streaming = s\<rparr> example_world) = Inr rep \<and> r_documents rep = nat n"
proof -
  obtain g w1 where init: "PerformanceGenerator_init example_externals example_world = (g, w1)"
    by (cases "PerformanceGenerator_init example_externals example_world")
  with PerformanceGenerator_init_world [of example_externals example_world]
  obtain f where w1: "w1 = example_world\<lparr>w_fake := f\<rparr>" by auto
  let ?w2 = "w1\<lparr>w_clock := snd (draw (w_clock w1))\<rparr>"
  from generate_performance_dataset_example [of "''medium''" bs g n ?w2] bs
  obtain docs where
    gen: "generate_performance_dataset example_externals g n ''medium'' bs ?w2 = Inr (docs, ?w2)"
    and len: "length docs = nat n" by auto
  obtain evs where sd: "save_documents s docs = (evs, Inr ())"
    using snd_save_documents [of s docs] by (cases "save_documents s docs") simp
  have ne: "docs \<noteq> []" using len n by auto
  have "main_perf example_externals
      \<lparr>pa_count = n, pa_type = ''medium'', pa_batch_size = bs, pa_seed = None,
       pa_streaming = s\<rparr> example_world
        = (evs, Inr \<lparr>r_documents = nat n, r_total_size = length (written evs)\<rparr>)"
    using n
    apply (simp add: main_perf_def seed_sources_def init split_beta Let_def gen sd len ne)
    apply (simp add: draw_def w1 example_world_def)
    done
  then show ?thesis by simp
qed

section \<open>Seeding\<close>

lemma seed_sources_same:
  assumes "k \<noteq> 0" and "w_clock w = w_clock v" and "w_urandom w = w_urandom v"
  shows "seed_sources E (Some k) w = seed_sources E (Some k) v"
  using assms by (cases w, cases v) (simp add: seed_sources_def)

lemma seed_sources_seeded:
  "k \<noteq> 0 \<Longrightarrow>
     seed_sources E (Some k) w
       = w\<lparr>w_random := \<lparr>tape = prng E k, pos = 0\<rparr>, w_fake := \<lparr>tape = prng E k, pos = 0\<rparr>\<rparr>"
  by (simp add: seed_sources_def)

lemma main_doc_seed:
  "main_doc E a w = main_doc E (a\<lparr>da_seed := None\<rparr>) (seed_sources E (da_seed a) w)"
  by (simp add: main_doc_def seed_sources_def Let_def
      cong: sum.case_cong prod.case_cong if_cong)

lemma main_perf_seed:
  "main_perf E a w = main_perf E (a\<lparr>pa_seed := None\<rparr>) (seed_sources E (pa_seed a) w)"
  by (simp add: main_perf_def seed_sources_def Let_def
      cong: sum.case_cong prod.case_cong if_cong)

lemma main_doc_mixed_five:
  "\<exists>rest. written (fst (main_doc example_externals
       \<lparr>da_type = ''mixed'', da_count = 5, da_format = ''ndjson'', da_seed = Some 0\<rparr>
       example_world)) = ''{\"id\": \"small_1\"'' @ rest"
  "\<exists>rest. written (fst (main_doc example_externals
       \<lparr>da_type = ''mixed'', da_count = 5, da_format = ''ndjson'', da_seed = Some 0\<rparr>
       (example_world\<lparr>w_random := \<lparr>tape = (\<lambda>k. 1), pos = 0\<rparr>\<rparr>))) = ''{\"id\": \"small_0\"'' @ rest"
   apply (simp add: main_doc_def seed_sources_def generate_documents_def
      generate_mixed_documents_def tier_documents_def mixed_counts_def float_eval run_eval)
   apply (simp add: shuffle_eval)
   apply (simp add: save_as_ndjson_def dumps_doc_def dumps_str_def escape_char_def)
  apply (simp add: main_doc_def seed_sources_def generate_documents_def
      generate_mixed_documents_def tier_documents_def mixed_counts_def float_eval run_eval)
  apply (simp add: shuffle_eval)
  apply (simp add: save_as_ndjson_def dumps_doc_def dumps_str_def escape_char_def)
  done

lemma main_perf_one_small_level:
  fixes v :: nat
  assumes v: "v = 0 \<or> v = 1"
  defines "w \<equiv> example_world\<lparr>w_random := \<lparr>tape = (\<lambda>k. v), pos = 0\<rparr>\<rparr>"
  defines "a \<equiv> \<lparr>pa_count = 1, pa_type = ''small'', pa_batch_size = 1000, pa_seed = Some 0,
                  pa_streaming = False\<rparr>"
  shows "\<exists>rest. written (fst (main_perf example_externals a w))
           = ''{\"id\": \"small_0\", \"timestamp\": \"1700000001\", \"level\": \"''
             @ (if v = 0 then ''INFO'' else ''WARN'') @ CHR 0x22 # rest"
proof -
  obtain g w1 where init:
    "PerformanceGenerator_init example_externals (seed_sources example_externals (Some 0) w) = (g, w1)"
    by (cases "PerformanceGenerator_init example_externals (seed_sources example_externals (Some 0) w)")
  from PerformanceGenerator_init_world [of example_externals "seed_sources example_externals (Some 0) w"] init
  obtain f where w1: "w1 = (seed_sources example_externals (Some 0) w)\<lparr>w_fake := f\<rparr>" by auto
  from PerformanceGenerator_init_sentences [of example_externals "seed_sources example_externals (Some 0) w"] init
  have gs: "common_sentences g \<noteq> []" by simp
  have t: "str_nat 1700000001 = ''1700000001''"
    by (simp add: str_nat_large str_nat_small digit_char_def)
  from v show ?thesis
  proof
    assume "v = 0"
    then show ?thesis
      apply (simp add: main_perf_def a_def init Let_def split_beta)
      apply (simp add: w1 w_def seed_sources_def generate_performance_dataset_def gs run_eval
        save_documents_def save_as_ndjson_def dumps_doc_def dumps_str_def escape_char_def t)
      done
  next
    assume "v = 1"
    then show ?thesis
      apply (simp add: main_perf_def a_def init Let_def split_beta)
      apply (simp add: w1 w_def seed_sources_def generate_performance_dataset_def gs run_eval
        save_documents_def save_as_ndjson_def dumps_doc_def dumps_str_def escape_char_def t)
      done
  qed
qed

section \<open>Properties\<close>

text \<open>
  C5. Ten documents under the weights 0.4, 0.35, 0.2 and the rest: the float products are
  4.0, 3.5 (a tie, rounded to even) and 2.0, so the counts are 4, 3, 2 and 1.
\<close>

theorem mixed_counts_ten: "mixed_counts 10 = Inr (4, 3, 2, 1)"
  by (simp add: mixed_counts_def int_of_product_def float_of_int_def fl_round_def
      round_half_even_def Let_def lit_0_4_def lit_0_35_def lit_0_2_def)

text \<open>
  C1. The per-tier counts of a mixed corpus are to sum to \<open>total_count\<close>, the last tier
  taking the remainder.  \<open>generate_mixed_documents\<close> does so (\<open>mixed_counts\<close>);
  \<open>generate_performance_dataset\<close> truncates the last product as well.  At
  \<open>total_count = 10\<close> its counts are 4, 3, 2 and 0: nine documents, not ten.
\<close>

theorem performance_distribution_drops_remainder:
  "type_distribution 10 = Inr [(''small'', 4), (''medium'', 3), (''large'', 2), (''huge'', 0)]
   \<and> sum_list (map snd [(''small'', 4), (''medium'', 3), (''large'', 2), (''huge'', 0 :: int)]) = 9"
  by (simp add: type_distribution_def float_eval)

text \<open>
  C9. The save step of performance_generator's \<open>main\<close> tests
  \<open>args.streaming or len(documents) > 50000\<close>, the count being the number of documents
  generated.  In every run that succeeds: with more than 50000 documents, or with the
  flag, the calls on the file are those of the streaming writer, each line written in
  order with a flush after every 1000th and the close at the end (at least 50 flushes
  above the threshold); with at most 50000 documents and no flag they are the writes of
  the lines and the close, with no flush.  For a single-tier or time-series request with
  a positive batch size the number of documents generated is the number asked for.  The
  same holds of the save step for every list of documents.
\<close>

theorem save_path_by_threshold:
  "(snd (main_perf E args w) = Inr rep \<longrightarrow>
      (\<exists>lines. length lines = r_documents rep \<and>
         (50000 < r_documents rep \<or> pa_streaming args \<longrightarrow>
            fst (main_perf E args w)
              = concat (map (\<lambda>k. Write (lines ! k)
                                 # (if (int k + 1) mod 1000 = 0 then [Flush] else []))
                         [0..<length lines]) @ [Close] \<and>
            flush_calls (fst (main_perf E args w)) = r_documents rep div 1000) \<and>
         (r_documents rep \<le> 50000 \<and> \<not> pa_streaming args \<longrightarrow>
            fst (main_perf E args w) = map Write lines @ [Close] \<and>
            flush_calls (fst (main_perf E args w)) = 0)) \<and>
      (50000 < r_documents rep \<longrightarrow> 50 \<le> flush_calls (fst (main_perf E args w))) \<and>
      (pa_type args \<noteq> ''mixed'' \<and> (pa_type args = ''timeseries'' \<or> 0 < pa_batch_size args)
         \<longrightarrow> r_documents rep = nat (pa_count args))) \<and>
   (50000 < length documents \<or> streaming \<longrightarrow>
      save_documents streaming documents = save_as_ndjson_streaming documents 1000 \<and>
      fst (save_documents streaming documents)
        = concat (map (\<lambda>k. Write (dumps_doc (documents ! k) @ [CHR 0x0A])
                           # (if (int k + 1) mod 1000 = 0 then [Flush] else []))
                   [0..<length documents]) @ [Close] \<and>
      flush_calls (fst (save_documents streaming documents)) = length documents div 1000) \<and>
   (length documents \<le> 50000 \<and> \<not> streaming \<longrightarrow>
      save_documents streaming documents = (save_as_ndjson documents, Inr ()) \<and>
      fst (save_documents streaming documents)
        = map (\<lambda>d. Write (dumps_doc d @ [CHR 0x0A])) documents @ [Close] \<and>
      flush_calls (fst (save_documents streaming documents)) = 0)"
proof (intro conjI impI)
  assume ok: "snd (main_perf E args w) = Inr rep"
  from main_perf_success [OF ok] obtain docs w3 where
    gen: "(if pa_type args = ''timeseries''
            then generate_time_series_data E
                   (fst (PerformanceGenerator_init E (seed_sources E (pa_seed args) w)))
                   (pa_count args) ''small''
                   ((snd (PerformanceGenerator_init E (seed_sources E (pa_seed args) w)))
                      \<lparr>w_clock := snd (draw (w_clock (snd (PerformanceGenerator_init E
                                     (seed_sources E (pa_seed args) w)))))\<rparr>)
            else generate_performance_dataset E
                   (fst (PerformanceGenerator_init E (seed_sources E (pa_seed args) w)))
                   (pa_count args) (pa_type args) (pa_batch_size args)
                   ((snd (PerformanceGenerator_init E (seed_sources E (pa_seed args) w)))
                      \<lparr>w_clock := snd (draw (w_clock (snd (PerformanceGenerator_init E
                                     (seed_sources E (pa_seed args) w)))))\<rparr>))
             = Inr (docs, w3)" and
    evs: "fst (main_perf E args w) = fst (save_documents (pa_streaming args) docs)" and
    n: "r_documents rep = length docs" by blast
  let ?lines = "map (\<lambda>d. dumps_doc d @ [CHR 0x0A]) docs"
  have "length ?lines = r_documents rep \<and>
         (50000 < r_documents rep \<or> pa_streaming args \<longrightarrow>
            fst (main_perf E args w)
              = concat (map (\<lambda>k. Write (?lines ! k)
                                 # (if (int k + 1) mod 1000 = 0 then [Flush] else []))
                         [0..<length ?lines]) @ [Close] \<and>
            flush_calls (fst (main_perf E args w)) = r_documents rep div 1000) \<and>
         (r_documents rep \<le> 50000 \<and> \<not> pa_streaming args \<longrightarrow>
            fst (main_perf E args w) = map Write ?lines @ [Close] \<and>
            flush_calls (fst (main_perf E args w)) = 0)"
  proof (intro conjI impI)
    show "length ?lines = r_documents rep" by (simp add: n)
  next
    assume "50000 < r_documents rep \<or> pa_streaming args"
    then have s: "pa_streaming args \<or> 50000 < length docs" by (auto simp: n)
    show "fst (main_perf E args w)
              = concat (map (\<lambda>k. Write (?lines ! k)
                                 # (if (int k + 1) mod 1000 = 0 then [Flush] else []))
                         [0..<length ?lines]) @ [Close]"
      unfolding evs lines_trace [symmetric] using s by (simp only: save_documents_trace if_True)
    show "flush_calls (fst (main_perf E args w)) = r_documents rep div 1000"
      unfolding evs n using s by (simp only: flush_calls_save_documents if_True)
  next
    assume "r_documents rep \<le> 50000 \<and> \<not> pa_streaming args"
    then have s: "\<not> (pa_streaming args \<or> 50000 < length docs)" by (auto simp: n)
    show "fst (main_perf E args w) = map Write ?lines @ [Close]"
      unfolding evs using s by (simp only: save_documents_trace if_False) (simp add: o_def)
    show "flush_calls (fst (main_perf E args w)) = 0"
      unfolding evs using s by (simp only: flush_calls_save_documents if_False)
  qed
  then show "\<exists>lines. length lines = r_documents rep \<and>
         (50000 < r_documents rep \<or> pa_streaming args \<longrightarrow>
            fst (main_perf E args w)
              = concat (map (\<lambda>k. Write (lines ! k)
                                 # (if (int k + 1) mod 1000 = 0 then [Flush] else []))
                         [0..<length lines]) @ [Close] \<and>
            flush_calls (fst (main_perf E args w)) = r_documents rep div 1000) \<and>
         (r_documents rep \<le> 50000 \<and> \<not> pa_streaming args \<longrightarrow>
            fst (main_perf E args w) = map Write lines @ [Close] \<and>
            flush_calls (fst (main_perf E args w)) = 0)"
    by (rule exI [of _ ?lines])
  show "50 \<le> flush_calls (fst (main_perf E args w))" if "50000 < r_documents rep"
    using that unfolding evs n by (simp add: flush_calls_save_documents)
  show "r_documents rep = nat (pa_count args)"
    if "pa_type args \<noteq> ''mixed'' \<and> (pa_type args = ''timeseries'' \<or> 0 < pa_batch_size args)"
    using that gen n by (auto split: if_splits dest: series_count generated_count)
next
  assume "50000 < length documents \<or> streaming"
  then have s: "streaming \<or> 50000 < length documents" by auto
  show "save_documents streaming documents = save_as_ndjson_streaming documents 1000"
    using s by (simp only: save_documents_def if_True)
  show "fst (save_documents streaming documents)
        = concat (map (\<lambda>k. Write (dumps_doc (documents ! k) @ [CHR 0x0A])
                           # (if (int k + 1) mod 1000 = 0 then [Flush] else []))
                   [0..<length documents]) @ [Close]"
    using s by (simp only: save_documents_trace if_True)
  show "flush_calls (fst (save_documents streaming documents)) = length documents div 1000"
    using s by (simp only: flush_calls_save_documents if_True)
next
  assume "length documents \<le> 50000 \<and> \<not> streaming"
  then have s: "\<not> (streaming \<or> 50000 < length documents)" by auto
  show "save_documents streaming documents = (save_as_ndjson documents, Inr ())"
    using s by (simp only: save_documents_def if_False)
  show "fst (save_documents streaming documents)
        = map (\<lambda>d. Write (dumps_doc d @ [CHR 0x0A])) documents @ [Close]"
    using s by (simp only: save_documents_trace if_False)
  show "flush_calls (fst (save_documents streaming documents)) = 0"
    using s by (simp only: flush_calls_save_documents if_False)
qed

theorem save_path_by_threshold_witness:
  "(\<exists>rep. snd (main_perf example_externals
            \<lparr>pa_count = 50001, pa_type = ''medium'', pa_batch_size = 1000, pa_seed = None,
             pa_streaming = False\<rparr> example_world) = Inr rep \<and>
      r_documents rep = 50001 \<and>
      flush_calls (fst (main_perf example_externals
            \<lparr>pa_count = 50001, pa_type = ''medium'', pa_batch_size = 1000, pa_seed = None,
             pa_streaming = False\<rparr> example_world)) = 50) \<and>
   (\<exists>rep. snd (main_perf example_externals
            \<lparr>pa_count = 3, pa_type = ''medium'', pa_batch_size = 1000, pa_seed = None,
             pa_streaming = False\<rparr> example_world) = Inr rep \<and>
      r_documents rep = 3 \<and>
      flush_calls (fst (main_perf example_externals
            \<lparr>pa_count = 3, pa_type = ''medium'', pa_batch_size = 1000, pa_seed = None,
             pa_streaming = False\<rparr> example_world)) = 0) \<and>
   50000 < length (replicate 50001 ([] :: document)) \<and>
   save_documents False (replicate 50001 []) = save_as_ndjson_streaming (replicate 50001 []) 1000 \<and>
   flush_calls (fst (save_documents False (replicate 50001 []))) = 50 \<and>
   length (replicate 3 ([] :: document)) \<le> 50000 \<and>
   save_documents False (replicate 3 []) = (save_as_ndjson (replicate 3 []), Inr ()) \<and>
   flush_calls (fst (save_documents False (replicate 3 []))) = 0"
proof -
  let ?a = "\<lparr>pa_count = 50001, pa_type = ''medium'', pa_batch_size = 1000, pa_seed = None,
             pa_streaming = False\<rparr>"
  let ?b = "\<lparr>pa_count = 3, pa_type = ''medium'', pa_batch_size = 1000, pa_seed = None,
             pa_streaming = False\<rparr>"
  from main_perf_medium_example [of 50001 1000 False] obtain rep where
    r: "snd (main_perf example_externals ?a example_world) = Inr rep"
    and n: "r_documents rep = 50001" by auto
  from main_perf_medium_example [of 3 1000 False] obtain rep' where
    r': "snd (main_perf example_externals ?b example_world) = Inr rep'"
    and n': "r_documents rep' = 3" by auto
  note big = save_path_by_threshold [of example_externals ?a example_world rep
      "replicate 50001 []" False]
  note small = save_path_by_threshold [of example_externals ?b example_world rep'
      "replicate 3 []" False]
  from big [THEN conjunct1] r n
  have b1: "flush_calls (fst (main_perf example_externals ?a example_world)) = 50"
    by auto
  have p: "50000 < length (replicate 50001 ([] :: document)) \<or> False" by simp
  note B = big [THEN conjunct2, THEN conjunct1, THEN mp, OF p]
  have b2: "save_documents False (replicate 50001 [])
              = save_as_ndjson_streaming (replicate 50001 []) 1000"
    by (rule B [THEN conjunct1])
  have b3: "flush_calls (fst (save_documents False (replicate 50001 []))) = 50"
    using B [THEN conjunct2, THEN conjunct2] by simp
  from small [THEN conjunct1] r' n'
  have s1: "flush_calls (fst (main_perf example_externals ?b example_world)) = 0"
    by auto
  have q: "length (replicate 3 ([] :: document)) \<le> 50000 \<and> \<not> False" by simp
  note S = small [THEN conjunct2, THEN conjunct2, THEN mp, OF q]
  have s2: "save_documents False (replicate 3 []) = (save_as_ndjson (replicate 3 []), Inr ())"
    by (rule S [THEN conjunct1])
  have s3: "flush_calls (fst (save_documents False (replicate 3 []))) = 0"
    by (rule S [THEN conjunct2, THEN conjunct2])
  from r n b1 r' n' s1 b2 b3 s2 s3 show ?thesis by simp
qed

text \<open>
  C10. The seed is tested for truthiness.  A run with \<open>--seed 0\<close> seeds nothing and is the
  run without a seed, in both programs.  Such runs are not reproducible: in two worlds
  that differ only in the state of the \<open>random\<close> source, the runs with seed 0 write
  different files (a mixed corpus of document_generator, a small document of
  performance_generator).  Any other seed replaces both the \<open>random\<close> and the \<open>fake\<close>
  source by the seeded stream: the run is the unseeded run on the seeded sources, and two
  runs in worlds with the same clock and entropy are equal whatever their \<open>random\<close> and
  \<open>fake\<close> sources were.
\<close>

theorem seed_zero_is_no_seed:
  "seed_sources E (Some 0) w = seed_sources E None w \<and>
   seed_sources E None w = w \<and>
   (k \<noteq> 0 \<longrightarrow>
      w_random (seed_sources E (Some k) w) = \<lparr>tape = prng E k, pos = 0\<rparr> \<and>
      w_fake (seed_sources E (Some k) w) = \<lparr>tape = prng E k, pos = 0\<rparr>) \<and>
   main_doc E (dargs\<lparr>da_seed := Some 0\<rparr>) w = main_doc E (dargs\<lparr>da_seed := None\<rparr>) w \<and>
   main_perf E (pargs\<lparr>pa_seed := Some 0\<rparr>) w = main_perf E (pargs\<lparr>pa_seed := None\<rparr>) w \<and>
   (k \<noteq> 0 \<longrightarrow>
      main_doc E (dargs\<lparr>da_seed := Some k\<rparr>) w
        = main_doc E (dargs\<lparr>da_seed := None\<rparr>)
            (w\<lparr>w_random := \<lparr>tape = prng E k, pos = 0\<rparr>,
               w_fake := \<lparr>tape = prng E k, pos = 0\<rparr>\<rparr>) \<and>
      main_perf E (pargs\<lparr>pa_seed := Some k\<rparr>) w
        = main_perf E (pargs\<lparr>pa_seed := None\<rparr>)
            (w\<lparr>w_random := \<lparr>tape = prng E k, pos = 0\<rparr>,
               w_fake := \<lparr>tape = prng E k, pos = 0\<rparr>\<rparr>)) \<and>
   (k \<noteq> 0 \<and> w_clock w = w_clock v \<and> w_urandom w = w_urandom v \<longrightarrow>
      main_doc E (dargs\<lparr>da_seed := Some k\<rparr>) w = main_doc E (dargs\<lparr>da_seed := Some k\<rparr>) v \<and>
      main_perf E (pargs\<lparr>pa_seed := Some k\<rparr>) w = main_perf E (pargs\<lparr>pa_seed := Some k\<rparr>) v) \<and>
   written (fst (main_doc example_externals
       \<lparr>da_type = ''mixed'', da_count = 5, da_format = ''ndjson'', da_seed = Some 0\<rparr>
       example_world))
     \<noteq> written (fst (main_doc example_externals
       \<lparr>da_type = ''mixed'', da_count = 5, da_format = ''ndjson'', da_seed = Some 0\<rparr>
       (example_world\<lparr>w_random := \<lparr>tape = (\<lambda>k. 1), pos = 0\<rparr>\<rparr>))) \<and>
   written (fst (main_perf example_externals
       \<lparr>pa_count = 1, pa_type = ''small'', pa_batch_size = 1000, pa_seed = Some 0,
        pa_streaming = False\<rparr>
       example_world))
     \<noteq> written (fst (main_perf example_externals
       \<lparr>pa_count = 1, pa_type = ''small'', pa_batch_size = 1000, pa_seed = Some 0,
        pa_streaming = False\<rparr>
       (example_world\<lparr>w_random := \<lparr>tape = (\<lambda>k. 1), pos = 0\<rparr>\<rparr>)))"
proof -
  have a: "seed_sources E (Some 0) w = seed_sources E None w \<and>
   seed_sources E None w = w \<and>
   (k \<noteq> 0 \<longrightarrow>
      w_random (seed_sources E (Some k) w) = \<lparr>tape = prng E k, pos = 0\<rparr> \<and>
      w_fake (seed_sources E (Some k) w) = \<lparr>tape = prng E k, pos = 0\<rparr>) \<and>
   main_doc E (dargs\<lparr>da_seed := Some 0\<rparr>) w = main_doc E (dargs\<lparr>da_seed := None\<rparr>) w \<and>
   main_perf E (pargs\<lparr>pa_seed := Some 0\<rparr>) w = main_perf E (pargs\<lparr>pa_seed := None\<rparr>) w"
    by (simp add: seed_sources_def main_doc_def main_perf_def Let_def
        cong: sum.case_cong prod.case_cong if_cong)
  have b: "main_doc E (dargs\<lparr>da_seed := Some k\<rparr>) w
        = main_doc E (dargs\<lparr>da_seed := None\<rparr>)
            (w\<lparr>w_random := \<lparr>tape = prng E k, pos = 0\<rparr>,
               w_fake := \<lparr>tape = prng E k, pos = 0\<rparr>\<rparr>) \<and>
      main_perf E (pargs\<lparr>pa_seed := Some k\<rparr>) w
        = main_perf E (pargs\<lparr>pa_seed := None\<rparr>)
            (w\<lparr>w_random := \<lparr>tape = prng E k, pos = 0\<rparr>,
               w_fake := \<lparr>tape = prng E k, pos = 0\<rparr>\<rparr>)" if "k \<noteq> 0"
    using main_doc_seed [of E "dargs\<lparr>da_seed := Some k\<rparr>" w]
      main_perf_seed [of E "pargs\<lparr>pa_seed := Some k\<rparr>" w]
      seed_sources_seeded [OF that, of E w]
    by simp
  have c: "main_doc E (dargs\<lparr>da_seed := Some k\<rparr>) w = main_doc E (dargs\<lparr>da_seed := Some k\<rparr>) v \<and>
      main_perf E (pargs\<lparr>pa_seed := Some k\<rparr>) w = main_perf E (pargs\<lparr>pa_seed := Some k\<rparr>) v"
    if "k \<noteq> 0 \<and> w_clock w = w_clock v \<and> w_urandom w = w_urandom v"
  proof -
    from that have "seed_sources E (Some k) w = seed_sources E (Some k) v"
      by (intro seed_sources_same) simp_all
    then show ?thesis
      using main_doc_seed [of E "dargs\<lparr>da_seed := Some k\<rparr>" w]
        main_doc_seed [of E "dargs\<lparr>da_seed := Some k\<rparr>" v]
        main_perf_seed [of E "pargs\<lparr>pa_seed := Some k\<rparr>" w]
        main_perf_seed [of E "pargs\<lparr>pa_seed := Some k\<rparr>" v]
      by simp
  qed
  have d: "written (fst (main_doc example_externals
       \<lparr>da_type = ''mixed'', da_count = 5, da_format = ''ndjson'', da_seed = Some 0\<rparr>
       example_world))
     \<noteq> written (fst (main_doc example_externals
       \<lparr>da_type = ''mixed'', da_count = 5, da_format = ''ndjson'', da_seed = Some 0\<rparr>
       (example_world\<lparr>w_random := \<lparr>tape = (\<lambda>k. 1), pos = 0\<rparr>\<rparr>)))"
    using main_doc_mixed_five by (elim exE) simp
  have z: "example_world\<lparr>w_random := \<lparr>tape = (\<lambda>k. 0), pos = 0\<rparr>\<rparr> = example_world"
    by (simp add: example_world_def)
  have e: "written (fst (main_perf example_externals
       \<lparr>pa_count = 1, pa_type = ''small'', pa_batch_size = 1000, pa_seed = Some 0,
        pa_streaming = False\<rparr>
       example_world))
     \<noteq> written (fst (main_perf example_externals
       \<lparr>pa_count = 1, pa_type = ''small'', pa_batch_size = 1000, pa_seed = Some 0,
        pa_streaming = False\<rparr>
       (example_world\<lparr>w_random := \<lparr>tape = (\<lambda>k. 1), pos = 0\<rparr>\<rparr>)))"
    using main_perf_one_small_level [of 0, OF disjI1 [OF refl]]
      main_perf_one_small_level [of 1, OF disjI2 [OF refl]]
    unfolding z by (elim exE) simp
  from a b c d e show ?thesis by (intro conjI impI) simp_all
qed

theorem seed_zero_is_no_seed_witness:
  "(42 :: int) \<noteq> 0 \<and>
   w_random (seed_sources example_externals (Some 42) example_world)
     = \<lparr>tape = prng example_externals 42, pos = 0\<rparr> \<and>
   w_fake (seed_sources example_externals (Some 42) example_world)
     = \<lparr>tape = prng example_externals 42, pos = 0\<rparr> \<and>
   w_clock example_world = w_clock (example_world\<lparr>w_random := \<lparr>tape = (\<lambda>k. 1), pos = 0\<rparr>\<rparr>) \<and>
   w_urandom example_world = w_urandom (example_world\<lparr>w_random := \<lparr>tape = (\<lambda>k. 1), pos = 0\<rparr>\<rparr>) \<and>
   main_doc example_externals
       \<lparr>da_type = ''mixed'', da_count = 5, da_format = ''ndjson'', da_seed = Some 42\<rparr>
       example_world
     = main_doc example_externals
       \<lparr>da_type = ''mixed'', da_count = 5, da_format = ''ndjson'', da_seed = Some 42\<rparr>
       (example_world\<lparr>w_random := \<lparr>tape = (\<lambda>k. 1), pos = 0\<rparr>\<rparr>) \<and>
   main_perf example_externals
       \<lparr>pa_count = 1, pa_type = ''small'', pa_batch_size = 1000, pa_seed = Some 42,
        pa_streaming = False\<rparr>
       example_world
     = main_perf example_externals
       \<lparr>pa_count = 1, pa_type = ''small'', pa_batch_size = 1000, pa_seed = Some 42,
        pa_streaming = False\<rparr>
       (example_world\<lparr>w_random := \<lparr>tape = (\<lambda>k. 1), pos = 0\<rparr>\<rparr>)"
proof -
  note T = seed_zero_is_no_seed [of example_externals example_world 42
      "\<lparr>da_type = ''mixed'', da_count = 5, da_format = ''ndjson'', da_seed = Some 42\<rparr>"
      "\<lparr>pa_count = 1, pa_type = ''small'', pa_batch_size = 1000, pa_seed = Some 42,
        pa_streaming = False\<rparr>"
      "example_world\<lparr>w_random := \<lparr>tape = (\<lambda>k. 1), pos = 0\<rparr>\<rparr>"]
  have k: "(42 :: int) \<noteq> 0" by simp
  have h: "(42 :: int) \<noteq> 0 \<and>
     w_clock example_world = w_clock (example_world\<lparr>w_random := \<lparr>tape = (\<lambda>k. 1), pos = 0\<rparr>\<rparr>) \<and>
     w_urandom example_world = w_urandom (example_world\<lparr>w_random := \<lparr>tape = (\<lambda>k. 1), pos = 0\<rparr>\<rparr>)"
    by simp
  note s = T [THEN conjunct2, THEN conjunct2, THEN conjunct1, THEN mp, OF k]
  note r = T [THEN conjunct2, THEN conjunct2, THEN conjunct2, THEN conjunct2, THEN conjunct2,
      THEN conjunct2, THEN conjunct1, THEN mp, OF h]
  from s r h show ?thesis by simp
qed

text \<open>
  C3. A run asked for zero documents is to end without an error.  Both programs write
  the (empty) file and then compute \<open>avg_size = total_size / len(documents)\<close>: with no
  documents the division raises ZeroDivisionError, for every world, batch size, type and
  flag of performance_generator's \<open>main\<close>, and for document_generator's \<open>main\<close>.
\<close>

theorem zero_documents_raises:
  "snd (main_perf E (pargs\<lparr>pa_count := 0\<rparr>) w) = Inl ZeroDivisionError \<and>
   written (fst (main_perf E (pargs\<lparr>pa_count := 0\<rparr>) w)) = [] \<and>
   snd (main_doc E (dargs\<lparr>da_count := 0, da_type := ''mixed''\<rparr>) w) = Inl ZeroDivisionError \<and>
   fst (main_doc E (dargs\<lparr>da_count := 0, da_type := ''mixed'', da_format := ''ndjson''\<rparr>) w)
     = [Close]"
  by (simp add: main_perf_def main_doc_def generate_performance_dataset_zero
      generate_time_series_data_zero generate_documents_zero save_documents_Nil
      save_as_ndjson_def Let_def split: prod.splits)

text \<open>
  C6. The streaming writer is to flush every \<open>flushInterval\<close> documents, the interval
  being the request's batch size unless given.  \<open>save_as_ndjson_streaming\<close> flushes after
  every \<open>chunk_size\<close>-th document, so \<open>len(documents) // chunk_size\<close> times, and \<open>main\<close>
  calls it without a \<open>chunk_size\<close>: the interval is the default 1000 whatever
  \<open>--batch-size\<close> is.  With 2000 documents and a batch size of 10 the run flushes twice,
  not 200 times.
\<close>

theorem flushes_ignore_batch_size:
  "flush_calls (fst (main_perf example_externals
      \<lparr>pa_count = 2000, pa_type = ''medium'', pa_batch_size = 10, pa_seed = None,
       pa_streaming = True\<rparr> example_world)) = 2 \<and>
   map_sum id r_documents (snd (main_perf example_externals
      \<lparr>pa_count = 2000, pa_type = ''medium'', pa_batch_size = 10, pa_seed = None,
       pa_streaming = True\<rparr> example_world)) = Inr 2000"
proof -
  obtain g w1 where init: "PerformanceGenerator_init example_externals example_world = (g, w1)"
    by (cases "PerformanceGenerator_init example_externals example_world")
  with PerformanceGenerator_init_world [of example_externals example_world]
  obtain f where w1: "w1 = example_world\<lparr>w_fake := f\<rparr>" by auto
  let ?w2 = "w1\<lparr>w_clock := snd (draw (w_clock w1))\<rparr>"
  from generate_performance_dataset_example [of "''medium''" 10 g 2000 ?w2]
  obtain docs where
    gen: "generate_performance_dataset example_externals g 2000 ''medium'' 10 ?w2 = Inr (docs, ?w2)"
    and len: "length docs = 2000" by auto
  obtain evs where sd: "save_documents True docs = (evs, Inr ())" and fl: "flush_calls evs = 2"
    using streaming_loop_flushes [of 1000 0 docs] streaming_loop_result [of 1000 0 docs] len
    by (cases "streaming_loop 1000 0 docs")
       (simp add: save_documents_def save_as_ndjson_streaming_def flush_calls_append
         flush_calls_def)
  have "main_perf example_externals
      \<lparr>pa_count = 2000, pa_type = ''medium'', pa_batch_size = 10, pa_seed = None,
       pa_streaming = True\<rparr> example_world
        = (evs, Inr \<lparr>r_documents = 2000, r_total_size = length (written evs)\<rparr>)"
    apply (simp add: main_perf_def seed_sources_def init split_beta Let_def gen sd len)
    apply (simp add: draw_def w1 example_world_def)
    done
  with fl show ?thesis by simp
qed

text \<open>
  C6, as the code has it: for a positive \<open>chunk_size\<close> the streaming writer succeeds and
  its calls on the file are, for each document in order, the write of its line, followed
  by a flush exactly when the number of documents written so far is a multiple of
  \<open>chunk_size\<close>, and the close at the end.  So it flushes once after every
  \<open>chunk_size\<close>-th document, \<open>len(documents) // chunk_size\<close> times in all (none for a last
  partial chunk), and writes the bytes the plain writer writes.  The save step of \<open>main\<close>
  in streaming mode is this writer with \<open>chunk_size = 1000\<close>, whatever the batch size.
\<close>

theorem streaming_flushes_every_chunk:
  "(0 < chunk_size \<longrightarrow>
      fst (save_as_ndjson_streaming documents chunk_size)
        = concat (map (\<lambda>k. Write (dumps_doc (documents ! k) @ [CHR 0x0A])
                           # (if (int k + 1) mod chunk_size = 0 then [Flush] else []))
                   [0..<length documents]) @ [Close] \<and>
      flush_calls (fst (save_as_ndjson_streaming documents chunk_size))
        = length documents div nat chunk_size \<and>
      snd (save_as_ndjson_streaming documents chunk_size) = Inr () \<and>
      written (fst (save_as_ndjson_streaming documents chunk_size))
        = written (save_as_ndjson documents)) \<and>
   fst (save_documents True documents)
     = concat (map (\<lambda>k. Write (dumps_doc (documents ! k) @ [CHR 0x0A])
                        # (if (int k + 1) mod 1000 = 0 then [Flush] else []))
                [0..<length documents]) @ [Close] \<and>
   flush_calls (fst (save_documents True documents)) = length documents div 1000"
proof -
  have a: "flush_calls (fst (save_as_ndjson_streaming documents cs)) = length documents div nat cs"
    if "0 < cs" for cs
    using streaming_loop_flushes [OF that, of 0 documents]
    by (simp add: save_as_ndjson_streaming_def flush_calls_append flush_calls_Cons
        split_beta) (simp add: flush_calls_def)
  have b: "snd (save_as_ndjson_streaming documents cs) = Inr ()" if "0 < cs" for cs
    using streaming_loop_result [of cs 0 documents] that
    by (simp add: save_as_ndjson_streaming_def split_beta)
  have c: "written (fst (save_as_ndjson_streaming documents cs)) = written (save_as_ndjson documents)"
    if "0 < cs" for cs
    using streaming_loop_written [of cs 0 documents] that
    by (simp add: save_as_ndjson_streaming_def written_append written_save_as_ndjson
        split_beta)
  have d: "fst (save_as_ndjson_streaming documents cs)
       = concat (map (\<lambda>k. Write (dumps_doc (documents ! k) @ [CHR 0x0A])
                          # (if (int k + 1) mod cs = 0 then [Flush] else []))
                  [0..<length documents]) @ [Close]" if "0 < cs" for cs
    using save_as_ndjson_streaming_trace [of cs documents] that by simp
  have e: "save_documents True documents = save_as_ndjson_streaming documents 1000"
    by (simp add: save_documents_def)
  show ?thesis
    unfolding e
    using a [of chunk_size] b [of chunk_size] c [of chunk_size] d [of chunk_size]
      a [of 1000] d [of 1000]
    by (intro conjI impI) simp_all
qed

theorem streaming_flushes_every_chunk_witness:
  "(0 :: int) < 2 \<and>
   fst (save_as_ndjson_streaming
          [[(''id'', JStr ''a'')], [(''id'', JStr ''b'')], [(''id'', JStr ''c'')],
           [(''id'', JStr ''d'')], [(''id'', JStr ''e'')]] 2)
     = [Write ''{\"id\": \"a\"}\<newline>'', Write ''{\"id\": \"b\"}\<newline>'', Flush,
        Write ''{\"id\": \"c\"}\<newline>'', Write ''{\"id\": \"d\"}\<newline>'', Flush,
        Write ''{\"id\": \"e\"}\<newline>'', Close] \<and>
   flush_calls (fst (save_as_ndjson_streaming
          [[(''id'', JStr ''a'')], [(''id'', JStr ''b'')], [(''id'', JStr ''c'')],
           [(''id'', JStr ''d'')], [(''id'', JStr ''e'')]] 2)) = 2 \<and>
   snd (save_as_ndjson_streaming
          [[(''id'', JStr ''a'')], [(''id'', JStr ''b'')], [(''id'', JStr ''c'')],
           [(''id'', JStr ''d'')], [(''id'', JStr ''e'')]] 2) = Inr ()"
  using streaming_flushes_every_chunk [of 2
          "[[(''id'', JStr ''a'')], [(''id'', JStr ''b'')], [(''id'', JStr ''c'')],
            [(''id'', JStr ''d'')], [(''id'', JStr ''e'')]]"]
  by (simp add: upt_conv_Cons dumps_doc_def dumps_str_def escape_char_def flush_calls_def)

text \<open>
  C7. Within one run the top-level \<open>id\<close> fields are pairwise distinct, and every document
  has one: for \<open>generate_documents\<close> (a tier's documents are numbered from 0 under the
  tier's prefix, and the prefixes of a mixed corpus differ), for
  \<open>generate_performance_dataset\<close> (one counter \<open>current_id\<close> runs through all batches and
  tiers) and for \<open>generate_time_series_data\<close> (\<open>ts_0\<close>, \<open>ts_1\<close>, ...), for every type,
  count, batch size and world in which the call returns.
\<close>

theorem ids_unique_in_run:
  "(generate_documents E doc_type cnt w = Inr (docs, w')
      \<longrightarrow> distinct (map doc_id docs) \<and> None \<notin> set (map doc_id docs)) \<and>
   (generate_performance_dataset E g total_count doc_type batch_size w = Inr (docs, w')
      \<longrightarrow> distinct (map doc_id docs) \<and> None \<notin> set (map doc_id docs)) \<and>
   (generate_time_series_data E g cnt doc_type w = Inr (docs, w')
      \<longrightarrow> distinct (map doc_id docs) \<and> None \<notin> set (map doc_id docs))"
proof (intro conjI impI)
  assume "generate_documents E doc_type cnt w = Inr (docs, w')"
  from doc_ids_unique [OF this]
  show "distinct (map doc_id docs)" and "None \<notin> set (map doc_id docs)" by simp_all
next
  assume "generate_performance_dataset E g total_count doc_type batch_size w = Inr (docs, w')"
  from perf_ids_unique [OF this]
  show "distinct (map doc_id docs)" and "None \<notin> set (map doc_id docs)" by simp_all
next
  assume "generate_time_series_data E g cnt doc_type w = Inr (docs, w')"
  from series_ids_unique [OF this]
  show "distinct (map doc_id docs)" and "None \<notin> set (map doc_id docs)" by simp_all
qed

theorem ids_unique_in_run_witness:
  "(\<exists>docs w'. generate_documents example_externals ''mixed'' 5 example_world = Inr (docs, w') \<and>
      map id_text docs = [''small_1'', ''medium_0'', ''large_0'', ''huge_0'', ''small_0''] \<and>
      distinct (map doc_id docs) \<and> None \<notin> set (map doc_id docs)) \<and>
   (\<exists>docs w'. generate_performance_dataset example_externals example_generator 5 ''mixed'' 2
                 example_world = Inr (docs, w') \<and>
      map id_text docs = [''small_1'', ''medium_2'', ''large_3'', ''small_0''] \<and>
      distinct (map doc_id docs) \<and> None \<notin> set (map doc_id docs)) \<and>
   (\<exists>docs w'. generate_time_series_data example_externals example_generator 2 ''medium''
                 example_world = Inr (docs, w') \<and>
      map id_text docs = [''ts_0'', ''ts_1''] \<and>
      distinct (map doc_id docs) \<and> None \<notin> set (map doc_id docs))"
proof (intro conjI)
  have "\<exists>docs w'. generate_documents example_externals ''mixed'' 5 example_world = Inr (docs, w') \<and>
      map id_text docs = [''small_1'', ''medium_0'', ''large_0'', ''huge_0'', ''small_0'']"
    apply (simp add: generate_documents_def generate_mixed_documents_def tier_documents_def
        mixed_counts_def float_eval run_eval)
    apply (simp add: shuffle_eval)
    done
  then obtain docs w' where
    r: "generate_documents example_externals ''mixed'' 5 example_world = Inr (docs, w')" and
    i: "map id_text docs = [''small_1'', ''medium_0'', ''large_0'', ''huge_0'', ''small_0'']"
    by (elim exE conjE)
  from ids_unique_in_run [of example_externals "''mixed''" 5 example_world docs w'] r
  have "distinct (map doc_id docs) \<and> None \<notin> set (map doc_id docs)" by simp
  with r i show "\<exists>docs w'. generate_documents example_externals ''mixed'' 5 example_world = Inr (docs, w') \<and>
      map id_text docs = [''small_1'', ''medium_0'', ''large_0'', ''huge_0'', ''small_0''] \<and>
      distinct (map doc_id docs) \<and> None \<notin> set (map doc_id docs)"
    by (intro exI [of _ docs] exI [of _ w'] conjI) (elim conjE, assumption)+
next
  have "\<exists>docs w'. generate_performance_dataset example_externals example_generator 5 ''mixed'' 2
                 example_world = Inr (docs, w') \<and>
      map id_text docs = [''small_1'', ''medium_2'', ''large_3'', ''small_0'']"
    apply (simp add: generate_performance_dataset_def type_distribution_def float_eval)
    apply (simp add: run_eval)
    apply (simp add: shuffle_eval)
    done
  then obtain docs w' where
    r: "generate_performance_dataset example_externals example_generator 5 ''mixed'' 2
          example_world = Inr (docs, w')" and
    i: "map id_text docs = [''small_1'', ''medium_2'', ''large_3'', ''small_0'']"
    by (elim exE conjE)
  from ids_unique_in_run [where E = example_externals and g = example_generator
      and total_count = 5 and doc_type = "''mixed''" and batch_size = 2 and w = example_world
      and docs = docs and w' = w'] r
  have "distinct (map doc_id docs) \<and> None \<notin> set (map doc_id docs)" by simp
  with r i show "\<exists>docs w'. generate_performance_dataset example_externals example_generator 5 ''mixed'' 2
                 example_world = Inr (docs, w') \<and>
      map id_text docs = [''small_1'', ''medium_2'', ''large_3'', ''small_0''] \<and>
      distinct (map doc_id docs) \<and> None \<notin> set (map doc_id docs)"
    by (intro exI [of _ docs] exI [of _ w'] conjI) (elim conjE, assumption)+
next
  have "\<exists>docs w'. generate_time_series_data example_externals example_generator 2 ''medium''
                 example_world = Inr (docs, w') \<and>
      map id_text docs = [''ts_0'', ''ts_1'']"
    apply (simp add: generate_time_series_data_def time_series_document_def run_eval)
    apply (simp add: id_text_def doc_id_def)
    done
  then obtain docs w' where
    r: "generate_time_series_data example_externals example_generator 2 ''medium''
          example_world = Inr (docs, w')" and
    i: "map id_text docs = [''ts_0'', ''ts_1'']"
    by (elim exE conjE)
  from ids_unique_in_run [where E = example_externals and g = example_generator
      and cnt = 2 and doc_type = "''medium''" and w = example_world
      and docs = docs and w' = w'] r
  have "distinct (map doc_id docs) \<and> None \<notin> set (map doc_id docs)" by simp
  with r i show "\<exists>docs w'. generate_time_series_data example_externals example_generator 2 ''medium''
                 example_world = Inr (docs, w') \<and>
      map id_text docs = [''ts_0'', ''ts_1''] \<and>
      distinct (map doc_id docs) \<and> None \<notin> set (map doc_id docs)"
    by (intro exI [of _ docs] exI [of _ w'] conjI) (elim conjE, assumption)+
qed

text \<open>
  C4. Above the streaming threshold the shuffle of a mixed corpus is to be skipped, the
  documents leaving in tier order.  \<open>generate_performance_dataset\<close> shuffles whenever the
  type is \<open>mixed\<close>; the threshold is looked at only afterwards, in the save step of
  \<open>main\<close>.  Take 60000 documents, batch size 1000, on the example inputs, where every raw
  random value is 0: the first swap of the shuffle puts \<open>small_0\<close> last, behind the huge
  documents, and the streaming writer is the one that saves the list.
\<close>

theorem large_mixed_corpus_is_shuffled:
  "let (g, w1) = PerformanceGenerator_init example_externals example_world;
       w2 = w1\<lparr>w_clock := snd (draw (w_clock w1))\<rparr>
   in \<exists>docs w3.
        generate_performance_dataset example_externals g 60000 ''mixed'' 1000 w2 = Inr (docs, w3) \<and>
        length docs = 60000 \<and>
        save_documents False docs = save_as_ndjson_streaming docs 1000 \<and>
        \<not> tier_sequential docs"
proof -
  let ?g = "fst (PerformanceGenerator_init example_externals example_world)"
  let ?w1 = "snd (PerformanceGenerator_init example_externals example_world)"
  let ?w2 = "?w1\<lparr>w_clock := snd (draw (w_clock ?w1))\<rparr>"
  from PerformanceGenerator_init_world [of example_externals example_world]
  obtain f where "?w1 = example_world\<lparr>w_fake := f\<rparr>" by blast
  then have z: "tape (w_random ?w2) = (\<lambda>k. 0)" by (simp add: example_world_def)
  from mixed_example_not_sequential [OF z
      PerformanceGenerator_init_sentences [of example_externals example_world] _
      type_distribution_60000, of 1000]
  obtain docs w3 where
    r: "generate_performance_dataset example_externals ?g 60000 ''mixed'' 1000 ?w2 = Inr (docs, w3)"
    and l: "length docs = 60000" and n: "\<not> tier_sequential docs"
    by auto
  from l have "save_documents False docs = save_as_ndjson_streaming docs 1000"
    by (simp add: save_documents_def)
  with r l n show ?thesis by (simp add: split_beta Let_def)
qed

text \<open>
  C4, as the code has it: for every count, batch size and world, the documents a mixed
  request returns are \<open>random.shuffle\<close> applied to the tier-sequential list the batches
  built, drawn from the \<open>random\<close> source as it stands after generation; and the save
  step, streaming or not, writes the documents of the list in the list's order.
\<close>

theorem mixed_corpus_always_shuffled:
  "(generate_performance_dataset E g total_count ''mixed'' batch_size w = Inr (docs, w') \<longrightarrow>
      (\<exists>dist u c b w1.
          type_distribution total_count = Inr dist \<and>
          tier_loop E g batch_size dist ([], 0, 0, w) = Inr (u, c, b, w1) \<and>
          tier_sequential u \<and>
          docs = fst (shuffle u (w_random w1)) \<and>
          mset docs = mset u)) \<and>
   written (fst (save_documents streaming docs))
     = concat (map (\<lambda>doc. dumps_doc doc @ [CHR 0x0A]) docs)"
proof (intro conjI impI)
  assume "generate_performance_dataset E g total_count ''mixed'' batch_size w = Inr (docs, w')"
  from generate_performance_dataset_mixed [OF this] obtain dist u c b w1 where
    d: "type_distribution total_count = Inr dist" and
    t: "tier_loop E g batch_size dist ([], 0, 0, w) = Inr (u, c, b, w1)" and
    s: "docs = fst (shuffle u (w_random w1))" by blast
  from type_distribution_tiers [OF d] t have "tier_sequential u"
    by (auto dest: tier_loop_sequential)
  moreover have "mset docs = mset u" unfolding s by (rule shuffle_mset)
  ultimately show "\<exists>dist u c b w1.
          type_distribution total_count = Inr dist \<and>
          tier_loop E g batch_size dist ([], 0, 0, w) = Inr (u, c, b, w1) \<and>
          tier_sequential u \<and>
          docs = fst (shuffle u (w_random w1)) \<and>
          mset docs = mset u"
    using d t s by blast
next
  show "written (fst (save_documents streaming docs))
     = concat (map (\<lambda>doc. dumps_doc doc @ [CHR 0x0A]) docs)"
    by (rule written_save_documents)
qed

theorem mixed_corpus_always_shuffled_witness:
  "\<exists>docs w'. generate_performance_dataset example_externals example_generator 5 ''mixed'' 2
                example_world = Inr (docs, w') \<and>
     map id_text docs = [''small_1'', ''medium_2'', ''large_3'', ''small_0''] \<and>
     (\<exists>u. tier_sequential u \<and> mset docs = mset u)"
proof -
  have "\<exists>docs w'. generate_performance_dataset example_externals example_generator 5 ''mixed'' 2
                 example_world = Inr (docs, w') \<and>
      map id_text docs = [''small_1'', ''medium_2'', ''large_3'', ''small_0'']"
    apply (simp add: generate_performance_dataset_def type_distribution_def float_eval)
    apply (simp add: run_eval)
    apply (simp add: shuffle_eval)
    done
  then obtain docs w' where
    r: "generate_performance_dataset example_externals example_generator 5 ''mixed'' 2
          example_world = Inr (docs, w')" and
    i: "map id_text docs = [''small_1'', ''medium_2'', ''large_3'', ''small_0'']"
    by (elim exE conjE)
  from mixed_corpus_always_shuffled [of example_externals example_generator 5 2 example_world
      docs w' False] r
  obtain u where "tier_sequential u" "mset docs = mset u" by auto
  with r i show ?thesis by (intro exI [of _ docs] exI [of _ w'] conjI exI [of _ u])
qed

text \<open>
  C2. Two runs with the same seed and the same request are to write the same bytes.
  \<open>generate_small_template\<close> stamps every document with \<open>datetime.now().isoformat()\<close>,
  which no seed controls: two runs of performance_generator's \<open>main\<close> with \<open>--seed 42
  --type small --count 1\<close>, in worlds that differ in the clock only, both succeed and
  write different files.
\<close>

theorem same_seed_different_output:
  "written (fst (main_perf example_externals
      \<lparr>pa_count = 1, pa_type = ''small'', pa_batch_size = 1000, pa_seed = Some 42,
       pa_streaming = False\<rparr>
      (example_world\<lparr>w_clock := \<lparr>tape = (\<lambda>k. 1700000000 + k), pos = 0\<rparr>\<rparr>)))
   \<noteq> written (fst (main_perf example_externals
      \<lparr>pa_count = 1, pa_type = ''small'', pa_batch_size = 1000, pa_seed = Some 42,
       pa_streaming = False\<rparr>
      (example_world\<lparr>w_clock := \<lparr>tape = (\<lambda>k. 1800000000 + k), pos = 0\<rparr>\<rparr>))) \<and>
   map_sum id r_documents (snd (main_perf example_externals
      \<lparr>pa_count = 1, pa_type = ''small'', pa_batch_size = 1000, pa_seed = Some 42,
       pa_streaming = False\<rparr>
      (example_world\<lparr>w_clock := \<lparr>tape = (\<lambda>k. 1700000000 + k), pos = 0\<rparr>\<rparr>))) = Inr 1 \<and>
   map_sum id r_documents (snd (main_perf example_externals
      \<lparr>pa_count = 1, pa_type = ''small'', pa_batch_size = 1000, pa_seed = Some 42,
       pa_streaming = False\<rparr>
      (example_world\<lparr>w_clock := \<lparr>tape = (\<lambda>k. 1800000000 + k), pos = 0\<rparr>\<rparr>))) = Inr 1"
proof -
  have s1: "concat (map escape_char (str_nat (1700000000 + 1))) = ''1700000001''"
    by (simp add: str_nat_large str_nat_small digit_char_def escape_char_def)
  have s2: "concat (map escape_char (str_nat (1800000000 + 1))) = ''1800000001''"
    by (simp add: str_nat_large str_nat_small digit_char_def escape_char_def)
  from main_perf_one_small(1) [of 1700000000] main_perf_one_small(1) [of 1800000000]
  have "written (fst (main_perf example_externals
      \<lparr>pa_count = 1, pa_type = ''small'', pa_batch_size = 1000, pa_seed = Some 42,
       pa_streaming = False\<rparr>
      (example_world\<lparr>w_clock := \<lparr>tape = (\<lambda>k. 1700000000 + k), pos = 0\<rparr>\<rparr>)))
   \<noteq> written (fst (main_perf example_externals
      \<lparr>pa_count = 1, pa_type = ''small'', pa_batch_size = 1000, pa_seed = Some 42,
       pa_streaming = False\<rparr>
      (example_world\<lparr>w_clock := \<lparr>tape = (\<lambda>k. 1800000000 + k), pos = 0\<rparr>\<rparr>)))"
    unfolding s1 s2 by (elim exE) simp
  with main_perf_one_small(2) [of 1700000000] main_perf_one_small(2) [of 1800000000]
  show ?thesis by (intro conjI)
qed

end
